theory Spec2Isabelle
  imports Main
begin

section \<open>The program and its errors\<close>

text \<open>
  The package mageconfig fills the fields of a configuration struct from four sources: the
  \<open>default\<close> tag of the field, a key-value file, the environment and the command line.  Its
  entry point is \<open>Load(cfg, file)\<close>.  The definitions below follow the source function by
  function: \<open>Load\<close>, its four passes and the validation from \<open>src/unnamed/part_001\<close>, the
  traversal of the fields and the conversion of a text to the type of a field from
  \<open>src/unnamed/part_005\<close>.  What the program reads from its process (arguments, environment,
  files, package variables) is an argument of the model, and what it assigns through
  reflection is a state that is passed along.  The usage text that \<open>Load\<close> prints before it
  exits on \<open>-help\<close> is not modelled.

  A function of the source that returns an \<open>error\<close> returns an \<open>error option\<close> here, or a
  sum with the error on the left when it also returns a value.
\<close>

datatype error =
    ConfigShapeError
  | FileAccessError string
  | ConversionError string
  | UnsupportedTypeError
  | ParseFieldError error
  | MapFormatError string
  | RequiredNotSetError string
  | DependsNotSetError string
  | Panic string

text \<open>
  \<open>ConfigShapeError\<close> is \<open>errors.New("config must be a pointer to a struct")\<close>,
  \<open>FileAccessError\<close> an error of \<open>os.Open\<close> or of the line scanner, \<open>ConversionError\<close> an
  error of a library parser (with its message), \<open>UnsupportedTypeError\<close> is
  \<open>fmt.Errorf("unsupported type")\<close>, \<open>ParseFieldError e\<close> is \<open>fmt.Errorf("parse field: %w", e)\<close>,
  \<open>MapFormatError p\<close> is \<open>fmt.Errorf("invalid map default value: %s", p)\<close>, the two validation
  errors wrap \<open>ErrRequiredNotSet\<close> and \<open>ErrDependsNotSet\<close> with a name, and \<open>Panic\<close> is a run-time
  panic, which unwinds every caller.
\<close>

section \<open>Text primitives of the Go standard library used by mageconfig\<close>

text \<open>
  Go strings are byte sequences; they are modelled as \<^typ>\<open>string\<close>, one \<^typ>\<open>char\<close> per
  byte.  The separators the program uses (\<open>-\<close>, \<open>=\<close>, \<open>,\<close>, \<open>:\<close>) are single ASCII bytes.
\<close>

text \<open>
  The white space of \<open>unicode.IsSpace\<close>, as UTF-8 byte sequences: the six ASCII characters,
  U+0085, U+00A0, U+1680, U+2000 to U+200A, U+2028, U+2029, U+202F, U+205F and U+3000.
\<close>

definition spaceRunes :: "string list" where
  "spaceRunes =
     [[CHR 0x09], [CHR 0x0A], [CHR 0x0B], [CHR 0x0C], [CHR 0x0D], [CHR 0x20],
      [CHR 0xC2, CHR 0x85], [CHR 0xC2, CHR 0xA0],
      [CHR 0xE1, CHR 0x9A, CHR 0x80],
      [CHR 0xE2, CHR 0x80, CHR 0x80], [CHR 0xE2, CHR 0x80, CHR 0x81],
      [CHR 0xE2, CHR 0x80, CHR 0x82], [CHR 0xE2, CHR 0x80, CHR 0x83],
      [CHR 0xE2, CHR 0x80, CHR 0x84], [CHR 0xE2, CHR 0x80, CHR 0x85],
      [CHR 0xE2, CHR 0x80, CHR 0x86], [CHR 0xE2, CHR 0x80, CHR 0x87],
      [CHR 0xE2, CHR 0x80, CHR 0x88], [CHR 0xE2, CHR 0x80, CHR 0x89],
      [CHR 0xE2, CHR 0x80, CHR 0x8A],
      [CHR 0xE2, CHR 0x80, CHR 0xA8], [CHR 0xE2, CHR 0x80, CHR 0xA9],
      [CHR 0xE2, CHR 0x80, CHR 0xAF], [CHR 0xE2, CHR 0x81, CHR 0x9F],
      [CHR 0xE3, CHR 0x80, CHR 0x80]]"

text \<open>\<open>stripLeading ps s\<close> removes from the front of \<open>s\<close> every occurrence of a sequence of \<open>ps\<close>.\<close>

function stripLeading :: "string list \<Rightarrow> string \<Rightarrow> string" where
  "stripLeading ps s =
     (case List.find (\<lambda>p. p \<noteq> [] \<and> take (length p) s = p) ps of
        None \<Rightarrow> s
      | Some p \<Rightarrow> stripLeading ps (drop (length p) s))"
  by pat_completeness auto
termination
proof (relation "measure (\<lambda>(ps, s). length s)")
  show "wf (measure (\<lambda>(ps, s). length s))" by simp
next
  fix ps :: "string list" and s p :: string
  assume "List.find (\<lambda>p. p \<noteq> [] \<and> take (length p) s = p) ps = Some p"
  then have "p \<noteq> []" and "take (length p) s = p"
    by (auto simp: find_Some_iff)
  then have "s \<noteq> []" by auto
  with \<open>p \<noteq> []\<close> show "((ps, drop (length p) s), (ps, s)) \<in> measure (\<lambda>(ps, s). length s)"
    by simp
qed

declare stripLeading.simps [simp del]

text \<open>\<open>strings.TrimSpace\<close>: leading and trailing white space removed.\<close>

definition TrimSpace :: "string \<Rightarrow> string" where
  "TrimSpace s = rev (stripLeading (map rev spaceRunes) (rev (stripLeading spaceRunes s)))"

text \<open>\<open>strings.TrimLeft(s, cutset)\<close> for a cutset of one byte.\<close>

definition TrimLeft :: "string \<Rightarrow> char \<Rightarrow> string" where
  "TrimLeft s c = dropWhile (\<lambda>x. x = c) s"

text \<open>\<open>strings.HasPrefix(s, prefix)\<close> for a prefix of one byte.\<close>

definition HasPrefix :: "string \<Rightarrow> char \<Rightarrow> bool" where
  "HasPrefix s c = (case s of [] \<Rightarrow> False | x # _ \<Rightarrow> x = c)"

text \<open>\<open>strings.Index(s, substr)\<close> for a substring of one byte; \<open>-1\<close> when it does not occur.\<close>

definition Index :: "string \<Rightarrow> char \<Rightarrow> int" where
  "Index s c = (if c \<in> set s then int (length (takeWhile (\<lambda>x. x \<noteq> c) s)) else - 1)"

text \<open>\<open>strings.Split(s, sep)\<close> for a separator of one byte: never the empty list.\<close>

fun Split :: "string \<Rightarrow> char \<Rightarrow> string list" where
  "Split [] c = [[]]"
| "Split (x # xs) c =
     (if x = c then [] # Split xs c
      else (case Split xs c of [] \<Rightarrow> [[x]] | p # ps \<Rightarrow> (x # p) # ps))"

text \<open>\<open>strings.SplitN(s, sep, 2)\<close> for a separator of one byte: one part, or two parts cut at
  the first separator.\<close>

definition SplitN2 :: "string \<Rightarrow> char \<Rightarrow> string list" where
  "SplitN2 s c =
     (if c \<in> set s then [takeWhile (\<lambda>x. x \<noteq> c) s, drop 1 (dropWhile (\<lambda>x. x \<noteq> c) s)]
      else [s])"

text \<open>The slice expression \<open>s[lo:hi]\<close>, which panics unless \<open>lo \<le> hi \<le> len(s)\<close>.\<close>

definition slice :: "string \<Rightarrow> nat \<Rightarrow> nat \<Rightarrow> error + string" where
  "slice s lo hi =
     (if lo \<le> hi \<and> hi \<le> length s then Inr (take (hi - lo) (drop lo s))
      else Inl (Panic ''slice bounds out of range''))"

text \<open>\<open>strconv.ParseBool\<close>: the twelve accepted spellings.\<close>

definition ParseBool :: "string \<Rightarrow> string + bool" where
  "ParseBool str =
     (if str \<in> set [''1'', ''t'', ''T'', ''true'', ''TRUE'', ''True''] then Inr True
      else if str \<in> set [''0'', ''f'', ''F'', ''false'', ''FALSE'', ''False''] then Inr False
      else Inl ''strconv.ParseBool: invalid syntax'')"

section \<open>The configuration file: \<open>loadFromFile\<close>, reading the lines into a map\<close>

definition kvSeparator :: char where "kvSeparator = CHR '':''"
definition sliceSeparator :: char where "sliceSeparator = CHR '',''"
definition argPrefix :: char where "argPrefix = CHR ''-''"

text \<open>
  The body of the scanner loop for one line.  \<open>Inr None\<close> is the \<open>continue\<close> of a line that
  does not have two parts, \<open>Inr (Some (key, value))\<close> the entry written to \<open>fileContent\<close>, and
  \<open>Inl\<close> the panic of the slice expression \<open>value[1 : len(value)-1]\<close>.
\<close>

definition stripQuotes :: "string \<Rightarrow> error + string" where
  "stripQuotes v =
     (if length v > 0 \<and>
         (hd v = CHR 0x22 \<and> last v = CHR 0x22 \<or> hd v = CHR 0x27 \<and> last v = CHR 0x27)
      then slice v 1 (length v - 1)
      else Inr v)"

definition parseLine :: "string \<Rightarrow> error + (string \<times> string) option" where
  "parseLine line =
     (case SplitN2 line kvSeparator of
        [p0, p1] \<Rightarrow>
          (case stripQuotes (TrimSpace p1) of
             Inl e \<Rightarrow> Inl e
           | Inr v \<Rightarrow> Inr (Some (TrimSpace p0, v)))
      | _ \<Rightarrow> Inr None)"

text \<open>The scanner loop over the lines of the file, from the map built so far.\<close>

fun readLines :: "string list \<Rightarrow> (string \<rightharpoonup> string) \<Rightarrow> error + (string \<rightharpoonup> string)" where
  "readLines [] fileContent = Inr fileContent"
| "readLines (line # rest) fileContent =
     (case parseLine line of
        Inl e \<Rightarrow> Inl e
      | Inr None \<Rightarrow> readLines rest fileContent
      | Inr (Some (key, v)) \<Rightarrow> readLines rest (fileContent(key \<mapsto> v)))"

section \<open>Types and values of the destination record\<close>

text \<open>
  The types a field can have: the predeclared types the program distinguishes, \<open>time.Duration\<close>,
  \<open>time.Time\<close>, slices, maps (key type, element type), and \<open>TOther\<close> for every type with another
  kind (\<open>uint8\<close>, structs, pointers, ...).  Defined types other than the two of package \<open>time\<close>
  are not modelled.
\<close>

datatype gotype =
    TBool | TInt | TInt32 | TInt64 | TUint | TUint32 | TUint64 | TFloat32 | TFloat64
  | TString | TDuration | TTime | TSlice gotype | TMap gotype gotype | TOther

text \<open>
  The values \<open>parseStringToType\<close> produces.  Floating-point numbers, durations and times are
  values of the standard library; their representation \<open>'x\<close> is left open.
\<close>

datatype 'x scalar =
    VBool bool | VInt int | VUint nat | VFloat64 'x | VString string | VDuration 'x | VTime 'x

datatype 'x val =
    Scalar "'x scalar"
  | SliceV "'x scalar list"
  | MapV "(string \<times> 'x scalar) list"

text \<open>
  A map value is kept as the list of its entries, one per key; \<open>SetMapIndex\<close> replaces the
  value of a key that is present and adds the entry otherwise.
\<close>

fun SetMapIndex :: "(string \<times> 'v) list \<Rightarrow> string \<Rightarrow> 'v \<Rightarrow> (string \<times> 'v) list" where
  "SetMapIndex [] key v = [(key, v)]"
| "SetMapIndex ((k, x) # rest) key v =
     (if k = key then (key, v) # rest else (k, x) # SetMapIndex rest key v)"

text \<open>The dynamic type of a parsed value (\<open>reflect.ValueOf(v).Type()\<close>).\<close>

fun TypeOf :: "'x scalar \<Rightarrow> gotype" where
  "TypeOf (VBool _) = TBool"
| "TypeOf (VInt _) = TInt"
| "TypeOf (VUint _) = TUint"
| "TypeOf (VFloat64 _) = TFloat64"
| "TypeOf (VString _) = TString"
| "TypeOf (VDuration _) = TDuration"
| "TypeOf (VTime _) = TTime"

text \<open>
  The parsers of the standard library that the program calls and that are not modelled here:
  \<open>strconv.ParseInt(s, 10, 64)\<close> followed by \<open>int(v)\<close>, \<open>strconv.ParseUint(s, 10, 64)\<close> followed
  by \<open>uint(v)\<close>, \<open>strconv.ParseFloat(s, 64)\<close>, \<open>time.ParseDuration\<close>, \<open>time.Parse(time.RFC3339, s)\<close>,
  and \<open>strings.ToLower\<close>.  \<open>Inl\<close> carries the message of the error.
\<close>

record 'x stdlib =
  ParseInt :: "string \<Rightarrow> string + int"
  ParseUint :: "string \<Rightarrow> string + nat"
  ParseFloat :: "string \<Rightarrow> string + 'x"
  ParseDuration :: "string \<Rightarrow> string + 'x"
  ParseTime :: "string \<Rightarrow> string + 'x"
  ToLower :: "string \<Rightarrow> string"

definition parsed :: "('a \<Rightarrow> 'x scalar) \<Rightarrow> string + 'a \<Rightarrow> error + 'x scalar" where
  "parsed mk r = (case r of Inl msg \<Rightarrow> Inl (ConversionError msg) | Inr v \<Rightarrow> Inr (mk v))"

fun parseStringToType :: "'x stdlib \<Rightarrow> string \<Rightarrow> gotype \<Rightarrow> error + 'x scalar" where
  "parseStringToType lib s TDuration = parsed VDuration (ParseDuration lib s)"
| "parseStringToType lib s TTime = parsed VTime (ParseTime lib s)"
| "parseStringToType lib s TBool = parsed VBool (ParseBool s)"
| "parseStringToType lib s TInt = parsed VInt (ParseInt lib s)"
| "parseStringToType lib s TInt32 = parsed VInt (ParseInt lib s)"
| "parseStringToType lib s TInt64 = parsed VInt (ParseInt lib s)"
| "parseStringToType lib s TUint = parsed VUint (ParseUint lib s)"
| "parseStringToType lib s TUint32 = parsed VUint (ParseUint lib s)"
| "parseStringToType lib s TUint64 = parsed VUint (ParseUint lib s)"
| "parseStringToType lib s TFloat32 = parsed VFloat64 (ParseFloat lib s)"
| "parseStringToType lib s TFloat64 = parsed VFloat64 (ParseFloat lib s)"
| "parseStringToType lib s TString = Inr (VString s)"
| "parseStringToType lib s (TSlice _) = Inl UnsupportedTypeError"
| "parseStringToType lib s (TMap _ _) = Inl UnsupportedTypeError"
| "parseStringToType lib s TOther = Inl UnsupportedTypeError"

section \<open>Field declarations\<close>

text \<open>
  A struct field as \<open>reflect.StructField\<close> shows it: its name, its type, its tag, and whether
  it is exported.  \<open>fieldTag fld key\<close> is \<open>field.Tag.Get(key)\<close>, the empty string when the tag
  has no such key.
\<close>

record field =
  fieldName :: string
  fieldType :: gotype
  fieldTag :: "string \<Rightarrow> string"
  fieldExported :: bool

definition tagArg :: string where "tagArg = ''arg''"
definition tagEnv :: string where "tagEnv = ''env''"
definition tagFile :: string where "tagFile = ''file''"
definition tagDefault :: string where "tagDefault = ''default''"
definition tagDesc :: string where "tagDesc = ''desc''"
definition tagDepends :: string where "tagDepends = ''depends''"
definition tagRequired :: string where "tagRequired = ''required''"

section \<open>Conversion: \<open>setFieldByKind\<close>\<close>

text \<open>
  \<open>reflect.Value.Set\<close> panics when the target is the field of an unexported struct field, and
  \<open>Set\<close> and \<open>SetMapIndex\<close> panic when the value is not assignable to the target: a parsed
  \<open>int\<close> is not assignable to an \<open>int32\<close> field.  In \<open>Set fld assignable x\<close> the target is the
  value of the field \<open>fld\<close> of the destination.
\<close>

definition notAssignable :: error where
  "notAssignable = Panic ''reflect.Set: value is not assignable''"

definition Set :: "field \<Rightarrow> bool \<Rightarrow> 'x val \<Rightarrow> error + 'x val" where
  "Set fld assignable x =
     (if \<not> fieldExported fld
      then Inl (Panic ''reflect.Value.Set using value obtained using unexported field'')
      else if \<not> assignable then Inl notAssignable
      else Inr x)"

text \<open>The loop of the slice case: each element trimmed, parsed and stored.\<close>

fun setSliceElems :: "'x stdlib \<Rightarrow> gotype \<Rightarrow> string list \<Rightarrow> error + 'x scalar list" where
  "setSliceElems lib t [] = Inr []"
| "setSliceElems lib t (e # es) =
     (case parseStringToType lib (TrimSpace e) t of
        Inl err \<Rightarrow> Inl err
      | Inr v \<Rightarrow>
          if TypeOf v \<noteq> t then Inl notAssignable
          else (case setSliceElems lib t es of
                  Inl err \<Rightarrow> Inl err
                | Inr vs \<Rightarrow> Inr (v # vs)))"

text \<open>The loop of the map case, from the map built so far.\<close>

fun setMapPairs ::
  "'x stdlib \<Rightarrow> gotype \<Rightarrow> string list \<Rightarrow> (string \<times> 'x scalar) list
     \<Rightarrow> error + (string \<times> 'x scalar) list"
where
  "setMapPairs lib t [] mapValue = Inr mapValue"
| "setMapPairs lib t (pair # rest) mapValue =
     (case SplitN2 pair kvSeparator of
        [k, x] \<Rightarrow>
          (case parseStringToType lib (TrimSpace x) t of
             Inl err \<Rightarrow> Inl err
           | Inr v \<Rightarrow>
               if TypeOf v \<noteq> t then Inl notAssignable
               else setMapPairs lib t rest (SetMapIndex mapValue (TrimSpace k) v))
      | _ \<Rightarrow> Inl (MapFormatError pair))"

text \<open>
  \<open>setFieldByKind(field, value, strVal)\<close>, for the value of the field \<open>fld\<close> of the destination.
  It returns the value it stores in the field, or the error; on an error the field keeps its
  value, since each case assigns the field as its last step.
\<close>

definition setFieldByKind :: "'x stdlib \<Rightarrow> field \<Rightarrow> string \<Rightarrow> error + 'x val" where
  "setFieldByKind lib fld strVal =
     (case fieldType fld of
        TSlice t \<Rightarrow>
          (case setSliceElems lib t (Split strVal sliceSeparator) of
             Inl err \<Rightarrow> Inl err
           | Inr vs \<Rightarrow> Set fld True (SliceV vs))
      | TMap kt t \<Rightarrow>
          (case setMapPairs lib t (Split strVal sliceSeparator) [] of
             Inl err \<Rightarrow> Inl err
           | Inr m \<Rightarrow> Set fld (kt = TString) (MapV m))
      | _ \<Rightarrow>
          (case parseStringToType lib strVal (fieldType fld) of
             Inl err \<Rightarrow> Inl (ParseFieldError err)
           | Inr v \<Rightarrow> Set fld (TypeOf v = fieldType fld) (Scalar v)))"

section \<open>The state of a resolution call\<close>

text \<open>
  The destination record is mutated in place: \<open>vals\<close> gives the value of the field at each
  index, \<open>isSet\<close> is the map \<open>map[string]*bool\<close> of the call.
\<close>

record 'x state =
  vals :: "nat \<Rightarrow> 'x val"
  isSet :: "string \<rightharpoonup> bool"

definition getTagOrDefault :: "'x stdlib \<Rightarrow> field \<Rightarrow> string \<Rightarrow> string" where
  "getTagOrDefault lib fld tag =
     (if fieldTag fld tag = [] then ToLower lib (fieldName fld) else fieldTag fld tag)"

text \<open>
  \<open>setFields\<close>: the callback is applied to each field in declared order, with the index of the
  field; the first error stops the loop.  The state reached so far is returned with the error.
\<close>

fun setFieldsFrom ::
  "nat \<Rightarrow> field list \<Rightarrow> (field \<Rightarrow> nat \<Rightarrow> 'x state \<Rightarrow> error option \<times> 'x state) \<Rightarrow> 'x state
     \<Rightarrow> error option \<times> 'x state"
where
  "setFieldsFrom i [] setValue st = (None, st)"
| "setFieldsFrom i (fld # rest) setValue st =
     (case setValue fld i st of
        (Some err, st') \<Rightarrow> (Some err, st')
      | (None, st') \<Rightarrow> setFieldsFrom (Suc i) rest setValue st')"

definition setFields ::
  "field list \<Rightarrow> (field \<Rightarrow> nat \<Rightarrow> 'x state \<Rightarrow> error option \<times> 'x state) \<Rightarrow> 'x state
     \<Rightarrow> error option \<times> 'x state"
where
  "setFields flds setValue st = setFieldsFrom 0 flds setValue st"

text \<open>
  The tail shared by the four callbacks: \<open>setFieldByKind\<close>, then \<open>*isSet[field.Name] = true\<close>,
  which dereferences a nil pointer when the map has no entry for the name.
\<close>

definition setAndMark ::
  "'x stdlib \<Rightarrow> field \<Rightarrow> nat \<Rightarrow> string \<Rightarrow> 'x state \<Rightarrow> error option \<times> 'x state"
where
  "setAndMark lib fld i strVal st =
     (case setFieldByKind lib fld strVal of
        Inl err \<Rightarrow> (Some err, st)
      | Inr v \<Rightarrow>
          (case isSet st (fieldName fld) of
             None \<Rightarrow> (Some (Panic ''nil pointer dereference''), st\<lparr>vals := (vals st)(i := v)\<rparr>)
           | Some _ \<Rightarrow>
               (None, st\<lparr>vals := (vals st)(i := v),
                         isSet := (isSet st)(fieldName fld \<mapsto> True)\<rparr>)))"

fun initializeIsSet :: "field list \<Rightarrow> (string \<rightharpoonup> bool) \<Rightarrow> (string \<rightharpoonup> bool)" where
  "initializeIsSet [] m = m"
| "initializeIsSet (fld # rest) m = initializeIsSet rest (m(fieldName fld \<mapsto> False))"

section \<open>The process: arguments, environment, file system, package variables\<close>

text \<open>
  \<open>os.Open\<close> followed by the line scanner: the file does not exist, it cannot be opened for
  another reason, or it is opened and the scanner delivers its lines and then stops, with the
  error of \<open>scanner.Err()\<close> if there is one.
\<close>

datatype open_result =
    ErrNotExist
  | OpenError string
  | Opened "string list" "string option"

record world =
  osArgs :: "string list"
  lookupEnv :: "string \<rightharpoonup> string"
  osOpen :: "string \<Rightarrow> open_result"

text \<open>The package variables \<open>isLoaded\<close> and \<open>once\<close> (whether \<open>once.Do\<close> has run).\<close>

record globals =
  isLoaded :: bool
  onceDone :: bool

section \<open>The four passes\<close>

definition setDefault ::
  "'x stdlib \<Rightarrow> field list \<Rightarrow> 'x state \<Rightarrow> error option \<times> 'x state"
where
  "setDefault lib flds st =
     setFields flds
       (\<lambda>fld i st.
          if fieldTag fld tagDefault = [] then (None, st)
          else setAndMark lib fld i (fieldTag fld tagDefault) st)
       st"

definition loadFromFile ::
  "'x stdlib \<Rightarrow> world \<Rightarrow> field list \<Rightarrow> string \<Rightarrow> 'x state \<Rightarrow> error option \<times> 'x state"
where
  "loadFromFile lib w flds file st =
     (if file = [] then (None, st)
      else
        (case osOpen w file of
           ErrNotExist \<Rightarrow> (None, st)
         | OpenError msg \<Rightarrow> (Some (FileAccessError msg), st)
         | Opened lines scanErr \<Rightarrow>
             (case readLines lines Map.empty of
                Inl err \<Rightarrow> (Some err, st)
              | Inr fileContent \<Rightarrow>
                  (case scanErr of
                     Some msg \<Rightarrow> (Some (FileAccessError msg), st)
                   | None \<Rightarrow>
                       setFields flds
                         (\<lambda>fld i st.
                            if fieldTag fld tagFile = [] then (None, st)
                            else
                              (case fileContent (fieldTag fld tagFile) of
                                 None \<Rightarrow> (None, st)
                               | Some fileValue \<Rightarrow> setAndMark lib fld i fileValue st))
                         st))))"

definition loadFromEnv ::
  "'x stdlib \<Rightarrow> world \<Rightarrow> field list \<Rightarrow> 'x state \<Rightarrow> error option \<times> 'x state"
where
  "loadFromEnv lib w flds st =
     setFields flds
       (\<lambda>fld i st.
          if fieldTag fld tagEnv = [] then (None, st)
          else
            (case lookupEnv w (fieldTag fld tagEnv) of
               None \<Rightarrow> (None, st)
             | Some envValue \<Rightarrow> setAndMark lib fld i envValue st))
       st"

text \<open>
  The loop of \<open>getArgValue\<close> over the arguments from index \<open>i\<close> on; \<open>rest\<close> holds
  \<open>os.Args[i+1:]\<close>, so that \<open>i+1 < len(os.Args)\<close> is \<open>rest \<noteq> []\<close>.
\<close>

fun scanArgs :: "string \<Rightarrow> bool \<Rightarrow> string list \<Rightarrow> string" where
  "scanArgs argName isBool [] = []"
| "scanArgs argName isBool (a # rest) =
     (let arg = TrimLeft a argPrefix;
          equalIndex = Index arg (CHR ''='')
      in
        if equalIndex > 0 then
          (if take (nat equalIndex) arg = argName then drop (nat equalIndex + 1) arg
           else scanArgs argName isBool rest)
        else if arg = argName then
          (case rest of
             next # _ \<Rightarrow>
               if \<not> HasPrefix next argPrefix then next
               else if isBool then ''true''
               else scanArgs argName isBool rest
           | [] \<Rightarrow> if isBool then ''true'' else scanArgs argName isBool rest)
        else scanArgs argName isBool rest)"

definition getArgValue :: "world \<Rightarrow> string \<Rightarrow> bool \<Rightarrow> string" where
  "getArgValue w argName isBool = scanArgs argName isBool (drop 1 (osArgs w))"

definition loadFromArgs ::
  "'x stdlib \<Rightarrow> world \<Rightarrow> field list \<Rightarrow> 'x state \<Rightarrow> error option \<times> 'x state"
where
  "loadFromArgs lib w flds st =
     setFields flds
       (\<lambda>fld i st.
          let argName = getTagOrDefault lib fld tagArg;
              argValue = getArgValue w argName (fieldType fld = TBool)
          in if argValue = [] then (None, st)
             else setAndMark lib fld i argValue st)
       st"

section \<open>The validation pass\<close>

definition notSet :: "(string \<rightharpoonup> bool) \<Rightarrow> string \<Rightarrow> bool" where
  "notSet m name = (case m name of None \<Rightarrow> True | Some b \<Rightarrow> \<not> b)"

fun checkDepends :: "string list \<Rightarrow> (string \<rightharpoonup> bool) \<Rightarrow> error option" where
  "checkDepends [] m = None"
| "checkDepends (depend # rest) m =
     (if notSet m depend then Some (DependsNotSetError depend) else checkDepends rest m)"

fun checkRequiredAndDepends :: "field list \<Rightarrow> (string \<rightharpoonup> bool) \<Rightarrow> error option" where
  "checkRequiredAndDepends [] m = None"
| "checkRequiredAndDepends (fld # rest) m =
     (if fieldTag fld tagRequired = ''true'' \<and> notSet m (fieldName fld)
      then Some (RequiredNotSetError (fieldName fld))
      else
        (case (if fieldTag fld tagDepends \<noteq> []
               then checkDepends (Split (fieldTag fld tagDepends) (CHR '','')) m
               else None) of
           Some err \<Rightarrow> Some err
         | None \<Rightarrow> checkRequiredAndDepends rest m))"

section \<open>\<open>Load\<close>\<close>

fun isHelpRequested :: "string list \<Rightarrow> bool" where
  "isHelpRequested [] = False"
| "isHelpRequested (arg # rest) =
     (if arg = ''-help'' \<or> arg = ''--help'' then True else isHelpRequested rest)"

definition defaultMageCommands :: "string list" where
  "defaultMageCommands = [''-l'', ''-h'']"

fun contains :: "string list \<Rightarrow> string \<Rightarrow> bool" where
  "contains [] str = False"
| "contains (v # rest) str = (if v = str then True else contains rest str)"

text \<open>The loop of \<open>Load\<close> over \<open>os.Args\<close> that looks for a default Mage command.\<close>

fun mageCommandGiven :: "string list \<Rightarrow> bool" where
  "mageCommandGiven [] = False"
| "mageCommandGiven (arg # rest) =
     (if HasPrefix arg argPrefix \<and> contains defaultMageCommands arg then True
      else mageCommandGiven rest)"

text \<open>
  The destination passed to \<open>Load\<close>: a pointer to a struct, given by its field declarations and
  the values of its fields, or a value of any other type.
\<close>

datatype 'x config =
    StructPtr "field list" "nat \<Rightarrow> 'x val"
  | NotStructPtr

text \<open>
  The four passes of \<open>Load\<close>, each one skipped once an earlier one has returned an error.
\<close>

definition fourPasses ::
  "'x stdlib \<Rightarrow> world \<Rightarrow> field list \<Rightarrow> string \<Rightarrow> 'x state \<Rightarrow> error option \<times> 'x state"
where
  "fourPasses lib w flds file st =
     (case setDefault lib flds st of
        (Some err, st1) \<Rightarrow> (Some err, st1)
      | (None, st1) \<Rightarrow>
          (case loadFromFile lib w flds file st1 of
             (Some err, st2) \<Rightarrow> (Some err, st2)
           | (None, st2) \<Rightarrow>
               (case loadFromEnv lib w flds st2 of
                  (Some err, st3) \<Rightarrow> (Some err, st3)
                | (None, st3) \<Rightarrow> loadFromArgs lib w flds st3)))"

text \<open>
  What a call of \<open>Load\<close> does: it ends the process (\<open>os.Exit(0)\<close> after the usage text), or it
  returns (an error, a panic, or \<open>nil\<close>) and leaves the destination and the package variables
  in the state given.
\<close>

datatype 'x outcome =
    Exit nat
  | Return "error option" "'x config" globals

definition onceDo :: "globals \<Rightarrow> globals" where
  "onceDo g = (if onceDone g then g else g\<lparr>isLoaded := True, onceDone := True\<rparr>)"

definition Load :: "'x stdlib \<Rightarrow> world \<Rightarrow> globals \<Rightarrow> 'x config \<Rightarrow> string \<Rightarrow> 'x outcome" where
  "Load lib w g cfg file =
     (if isHelpRequested (osArgs w) then
        (case cfg of
           StructPtr _ _ \<Rightarrow> Exit 0
         | NotStructPtr \<Rightarrow> Return (Some (Panic ''reflect: not a pointer to a struct'')) cfg g)
      else if isLoaded g then Return None cfg g
      else if mageCommandGiven (osArgs w) then Return None cfg g
      else
        (case cfg of
           NotStructPtr \<Rightarrow> Return (Some ConfigShapeError) cfg g
         | StructPtr flds vs \<Rightarrow>
             (case fourPasses lib w flds file
                     \<lparr>vals = vs, isSet = initializeIsSet flds Map.empty\<rparr> of
                (Some err, st) \<Rightarrow> Return (Some err) (StructPtr flds (vals st)) g
              | (None, st) \<Rightarrow>
                  Return (checkRequiredAndDepends flds (isSet st))
                    (StructPtr flds (vals st)) (onceDo g))))"

section \<open>The earlier revision of \<open>Load\<close>\<close>

text \<open>
  The repository holds two revisions of the file that defines \<open>Load\<close>.  The definitions above
  follow the later one, which has the \<open>depends\<close> tag, the package variable \<open>isLoaded\<close> and the
  check for default Mage commands (\<open>src/unnamed/part_001\<close>).  The earlier one
  (\<open>src/mageconfig.go\<close>) has the same file, environment and argument passes; its \<open>setDefault\<close>
  does not take the map \<open>isSet\<close>, its validation is \<open>checkRequired\<close>, and its \<open>Load\<close> has neither
  the package variable nor the check for Mage commands.
\<close>

definition setDefault_earlier ::
  "'x stdlib \<Rightarrow> field list \<Rightarrow> 'x state \<Rightarrow> error option \<times> 'x state"
where
  "setDefault_earlier lib flds st =
     setFields flds
       (\<lambda>fld i st.
          if fieldTag fld tagDefault = [] then (None, st)
          else
            (case setFieldByKind lib fld (fieldTag fld tagDefault) of
               Inl err \<Rightarrow> (Some err, st)
             | Inr v \<Rightarrow> (None, st\<lparr>vals := (vals st)(i := v)\<rparr>)))
       st"

fun checkRequired :: "field list \<Rightarrow> (string \<rightharpoonup> bool) \<Rightarrow> error option" where
  "checkRequired [] m = None"
| "checkRequired (fld # rest) m =
     (if fieldTag fld tagRequired = ''true'' \<and> notSet m (fieldName fld)
      then Some (RequiredNotSetError (fieldName fld))
      else checkRequired rest m)"

definition Load_earlier :: "'x stdlib \<Rightarrow> world \<Rightarrow> globals \<Rightarrow> 'x config \<Rightarrow> string \<Rightarrow> 'x outcome" where
  "Load_earlier lib w g cfg file =
     (if isHelpRequested (osArgs w) then
        (case cfg of
           StructPtr _ _ \<Rightarrow> Exit 0
         | NotStructPtr \<Rightarrow> Return (Some (Panic ''reflect: not a pointer to a struct'')) cfg g)
      else
        (case cfg of
           NotStructPtr \<Rightarrow> Return (Some ConfigShapeError) cfg g
         | StructPtr flds vs \<Rightarrow>
             (case setDefault_earlier lib flds
                     \<lparr>vals = vs, isSet = initializeIsSet flds Map.empty\<rparr> of
                (Some err, st1) \<Rightarrow> Return (Some err) (StructPtr flds (vals st1)) g
              | (None, st1) \<Rightarrow>
                  (case loadFromFile lib w flds file st1 of
                     (Some err, st2) \<Rightarrow> Return (Some err) (StructPtr flds (vals st2)) g
                   | (None, st2) \<Rightarrow>
                       (case loadFromEnv lib w flds st2 of
                          (Some err, st3) \<Rightarrow> Return (Some err) (StructPtr flds (vals st3)) g
                        | (None, st3) \<Rightarrow>
                            (case loadFromArgs lib w flds st3 of
                               (Some err, st4) \<Rightarrow> Return (Some err) (StructPtr flds (vals st4)) g
                             | (None, st4) \<Rightarrow>
                                 Return (checkRequired flds (isSet st4))
                                   (StructPtr flds (vals st4)) g))))))"

section \<open>Candidate values of the four sources\<close>

text \<open>
  The four callbacks given to \<open>setFields\<close> have one shape: look the candidate string of the
  field up in the source, return \<open>nil\<close> when there is none, and otherwise convert it, assign
  it and mark the field set.  \<open>passStep\<close> is that shape for a lookup \<open>cand\<close>; the four lookups
  follow.  The argument pass has no candidate when \<open>getArgValue\<close> returns the empty string.
\<close>

definition passStep ::
  "'x stdlib \<Rightarrow> (field \<Rightarrow> string option) \<Rightarrow> field \<Rightarrow> nat \<Rightarrow> 'x state \<Rightarrow> error option \<times> 'x state"
where
  "passStep lib cand fld i st =
     (case cand fld of None \<Rightarrow> (None, st) | Some s \<Rightarrow> setAndMark lib fld i s st)"

definition defaultCand :: "field \<Rightarrow> string option" where
  "defaultCand fld =
     (if fieldTag fld tagDefault = [] then None else Some (fieldTag fld tagDefault))"

definition fileCand :: "(string \<rightharpoonup> string) \<Rightarrow> field \<Rightarrow> string option" where
  "fileCand fileContent fld =
     (if fieldTag fld tagFile = [] then None else fileContent (fieldTag fld tagFile))"

definition envCand :: "world \<Rightarrow> field \<Rightarrow> string option" where
  "envCand w fld =
     (if fieldTag fld tagEnv = [] then None else lookupEnv w (fieldTag fld tagEnv))"

definition argCand :: "'x stdlib \<Rightarrow> world \<Rightarrow> field \<Rightarrow> string option" where
  "argCand lib w fld =
     (let argValue = getArgValue w (getTagOrDefault lib fld tagArg) (fieldType fld = TBool)
      in if argValue = [] then None else Some argValue)"

text \<open>
  The first part of \<open>loadFromFile\<close>: the map read from the file, the empty map when no path is
  given or the file does not exist, or the error (or panic) that ends the pass.  \<open>fileMap\<close> is
  that map, empty in the case of an error.
\<close>

definition fileContentOf :: "world \<Rightarrow> string \<Rightarrow> error + (string \<rightharpoonup> string)" where
  "fileContentOf w file =
     (if file = [] then Inr Map.empty
      else
        (case osOpen w file of
           ErrNotExist \<Rightarrow> Inr Map.empty
         | OpenError msg \<Rightarrow> Inl (FileAccessError msg)
         | Opened lines scanErr \<Rightarrow>
             (case readLines lines Map.empty of
                Inl err \<Rightarrow> Inl err
              | Inr fileContent \<Rightarrow>
                  (case scanErr of
                     Some msg \<Rightarrow> Inl (FileAccessError msg)
                   | None \<Rightarrow> Inr fileContent))))"

definition fileMap :: "world \<Rightarrow> string \<Rightarrow> (string \<rightharpoonup> string)" where
  "fileMap w file = (case fileContentOf w file of Inr m \<Rightarrow> m | Inl _ \<Rightarrow> Map.empty)"

text \<open>
  The value of a field after a pass that returned no error: the conversion of the candidate,
  or the old value when there is no candidate.
\<close>

definition assigned :: "'x stdlib \<Rightarrow> field \<Rightarrow> string option \<Rightarrow> 'x val \<Rightarrow> 'x val" where
  "assigned lib fld c old =
     (case c of None \<Rightarrow> old
      | Some s \<Rightarrow> (case setFieldByKind lib fld s of Inr v \<Rightarrow> v | Inl _ \<Rightarrow> old))"

text \<open>
  The precedence of the sources, as the specification words it: the argument value when
  present, else the environment value, else the file value, else the default.  \<open>candidate\<close> is
  the string that wins for a field.
\<close>

definition precedence ::
  "string option \<Rightarrow> string option \<Rightarrow> string option \<Rightarrow> string option \<Rightarrow> string option" where
  "precedence d f e a =
     (case a of Some x \<Rightarrow> Some x
      | None \<Rightarrow> (case e of Some x \<Rightarrow> Some x
                 | None \<Rightarrow> (case f of Some x \<Rightarrow> Some x | None \<Rightarrow> d)))"

definition candidate :: "'x stdlib \<Rightarrow> world \<Rightarrow> string \<Rightarrow> field \<Rightarrow> string option" where
  "candidate lib w file fld =
     precedence (defaultCand fld) (fileCand (fileMap w file) fld) (envCand w fld) (argCand lib w fld)"

section \<open>Matching one argument token\<close>

text \<open>
  The body of the loop of \<open>getArgValue\<close> for the token \<open>a\<close> followed by the tokens \<open>rest\<close>: the
  value the loop returns at this token, or \<open>None\<close> when it moves on to the next token.
\<close>

definition tokenValue :: "string \<Rightarrow> bool \<Rightarrow> string \<Rightarrow> string list \<Rightarrow> string option" where
  "tokenValue argName isBool a rest =
     (let arg = TrimLeft a argPrefix;
          equalIndex = Index arg (CHR ''='')
      in
        if equalIndex > 0 then
          (if take (nat equalIndex) arg = argName then Some (drop (nat equalIndex + 1) arg)
           else None)
        else if arg = argName then
          (case rest of
             next # _ \<Rightarrow>
               if \<not> HasPrefix next argPrefix then Some next
               else if isBool then Some ''true''
               else None
           | [] \<Rightarrow> if isBool then Some ''true'' else None)
        else None)"

text \<open>No token of \<open>pre\<close>, followed by \<open>rest\<close>, makes the loop return.\<close>

fun unmatched :: "string \<Rightarrow> bool \<Rightarrow> string list \<Rightarrow> string list \<Rightarrow> bool" where
  "unmatched argName isBool [] rest = True"
| "unmatched argName isBool (a # pre) rest =
     (tokenValue argName isBool a (pre @ rest) = None \<and> unmatched argName isBool pre rest)"

section \<open>The violations of the required and dependency constraints\<close>

text \<open>
  The violations of one field, in the order in which the validation pass meets them: the field
  itself when it is required and not set, then each dependency it names that is not set.
  \<open>violations\<close> lists them for all fields in declared order.
\<close>

definition fieldViolations :: "(string \<rightharpoonup> bool) \<Rightarrow> field \<Rightarrow> error list" where
  "fieldViolations m fld =
     (if fieldTag fld tagRequired = ''true'' \<and> notSet m (fieldName fld)
      then [RequiredNotSetError (fieldName fld)] else [])
     @ (if fieldTag fld tagDepends \<noteq> []
        then map DependsNotSetError
               (filter (notSet m) (Split (fieldTag fld tagDepends) (CHR '','')))
        else [])"

definition violations :: "field list \<Rightarrow> (string \<rightharpoonup> bool) \<Rightarrow> error list" where
  "violations flds m = concat (map (fieldViolations m) flds)"

definition firstOf :: "error list \<Rightarrow> error option" where
  "firstOf es = (case es of [] \<Rightarrow> None | e # _ \<Rightarrow> Some e)"

section \<open>Keys and value texts\<close>

text \<open>
  A line of the file and a pair-token of a mapping field are both cut at the first key-value
  separator: the key is the trimmed text before it, the value text the trimmed text after it.
\<close>

definition keyOf :: "string \<Rightarrow> string" where
  "keyOf pair = TrimSpace (takeWhile (\<lambda>x. x \<noteq> kvSeparator) pair)"

definition valueTextOf :: "string \<Rightarrow> string" where
  "valueTextOf pair = TrimSpace (drop 1 (dropWhile (\<lambda>x. x \<noteq> kvSeparator) pair))"

text \<open>
  For a mapping field with element type \<open>t\<close>: \<open>pairOk\<close> holds when the pair-token has a
  separator, its value text parses as \<open>t\<close> and the parsed value can be stored in the map;
  \<open>entryOf\<close> is then the entry the token contributes.
\<close>

definition pairOk :: "'x stdlib \<Rightarrow> gotype \<Rightarrow> string \<Rightarrow> bool" where
  "pairOk lib t pair =
     (kvSeparator \<in> set pair \<and>
      (case parseStringToType lib (valueTextOf pair) t of Inl _ \<Rightarrow> False | Inr v \<Rightarrow> TypeOf v = t))"

definition entryOf :: "'x stdlib \<Rightarrow> gotype \<Rightarrow> string \<Rightarrow> string \<times> 'x scalar" where
  "entryOf lib t pair = (keyOf pair, projr (parseStringToType lib (valueTextOf pair) t))"

text \<open>
  For a line of the configuration file, what the description of the format gives: a line
  with a separator contributes its key and its value text without one layer of matching
  surrounding quotes; a line without a separator contributes nothing.  \<open>loneQuote\<close> holds for
  a line whose value text is a single quote character.
\<close>

definition unquote :: "string \<Rightarrow> string" where
  "unquote v =
     (if 2 \<le> length v \<and> hd v = last v \<and> (hd v = CHR 0x22 \<or> hd v = CHR 0x27)
      then butlast (tl v) else v)"

definition lineEntry :: "string \<Rightarrow> (string \<times> string) option" where
  "lineEntry line =
     (if kvSeparator \<in> set line then Some (keyOf line, unquote (valueTextOf line)) else None)"

definition loneQuote :: "string \<Rightarrow> bool" where
  "loneQuote line =
     (kvSeparator \<in> set line
      \<and> (valueTextOf line = [CHR 0x22] \<or> valueTextOf line = [CHR 0x27]))"

section \<open>Reading the outcome of \<open>Load\<close>\<close>

text \<open>
  Whether the call returned \<open>nil\<close>, the error it returned, and the value of the field at an
  index when it returned.
\<close>

definition returnsNil :: "'x outcome \<Rightarrow> bool" where
  "returnsNil r = (case r of Return None _ _ \<Rightarrow> True | _ \<Rightarrow> False)"

definition returnedError :: "'x outcome \<Rightarrow> error option" where
  "returnedError r = (case r of Return e _ _ \<Rightarrow> e | Exit _ \<Rightarrow> None)"

definition fieldAfter :: "'x outcome \<Rightarrow> nat \<Rightarrow> 'x val option" where
  "fieldAfter r i = (case r of Return _ (StructPtr _ vs) _ \<Rightarrow> Some (vs i) | _ \<Rightarrow> None)"

section \<open>A sample library and a sample configuration, for evaluation\<close>

text \<open>
  A stand-in for the library parsers: decimal digits for the integer parsers, no other parser
  accepts anything, and \<open>ToLower\<close> on ASCII letters.
\<close>

fun digitsVal :: "string \<Rightarrow> nat \<Rightarrow> nat option" where
  "digitsVal [] acc = Some acc"
| "digitsVal (c # cs) acc =
     (if 48 \<le> (of_char c :: nat) \<and> (of_char c :: nat) \<le> 57
      then digitsVal cs (10 * acc + (of_char c - 48)) else None)"

definition sampleParseUint :: "string \<Rightarrow> string + nat" where
  "sampleParseUint s =
     (if s = [] then Inl ''invalid syntax''
      else (case digitsVal s 0 of None \<Rightarrow> Inl ''invalid syntax'' | Some n \<Rightarrow> Inr n))"

definition sampleParseInt :: "string \<Rightarrow> string + int" where
  "sampleParseInt s =
     (case sampleParseUint s of Inl msg \<Rightarrow> Inl msg | Inr n \<Rightarrow> Inr (int n))"

definition sampleToLower :: "string \<Rightarrow> string" where
  "sampleToLower s =
     map (\<lambda>c. if 65 \<le> (of_char c :: nat) \<and> (of_char c :: nat) \<le> 90
               then char_of ((of_char c :: nat) + 32) else c) s"

definition sampleLib :: "unit stdlib" where
  "sampleLib =
     \<lparr>ParseInt = sampleParseInt,
      ParseUint = sampleParseUint,
      ParseFloat = (\<lambda>s. Inl ''invalid syntax''),
      ParseDuration = (\<lambda>s. Inl ''invalid duration''),
      ParseTime = (\<lambda>s. Inl ''cannot parse''),
      ToLower = sampleToLower\<rparr>"

text \<open>An exported field with the tag given by its key-value pairs.\<close>

definition mkField :: "string \<Rightarrow> gotype \<Rightarrow> (string \<times> string) list \<Rightarrow> field" where
  "mkField name t tag =
     \<lparr>fieldName = name, fieldType = t,
      fieldTag = (\<lambda>key. case map_of tag key of None \<Rightarrow> [] | Some v \<Rightarrow> v),
      fieldExported = True\<rparr>"

text \<open>
  \<^verbatim>\<open>
  type Sample struct {
      Backup  string `arg:"backup" depends:"Primary"`
      Primary string `arg:"primary"`
      Name    string `arg:"name" required:"true"`
      Count   int    `arg:"count" default:"3"`
      Mode    string `file:"mode" env:"MODE" arg:"mode" default:"dev"`
      Verbose bool
  }
  \<close>
\<close>

definition sampleFields :: "field list" where
  "sampleFields =
     [mkField ''Backup'' TString [(''arg'', ''backup''), (''depends'', ''Primary'')],
      mkField ''Primary'' TString [(''arg'', ''primary'')],
      mkField ''Name'' TString [(''arg'', ''name''), (''required'', ''true'')],
      mkField ''Count'' TInt [(''arg'', ''count''), (''default'', ''3'')],
      mkField ''Mode'' TString
        [(''file'', ''mode''), (''env'', ''MODE''), (''arg'', ''mode''), (''default'', ''dev'')],
      mkField ''Verbose'' TBool []]"

text \<open>A field of type \<open>map[string]int\<close>.\<close>

definition sampleMapField :: field where
  "sampleMapField = mkField ''Limits'' (TMap TString TInt) []"

text \<open>The zero value of the sample struct, by field index.\<close>

definition sampleZero :: "nat \<Rightarrow> unit val" where
  "sampleZero i =
     (if i = 3 then Scalar (VInt 0) else if i = 5 then Scalar (VBool False)
      else Scalar (VString []))"

text \<open>
  A file system with the configuration file \<open>app.config\<close>, a file that cannot be opened, a
  file whose reading fails after its first line, and a file whose second line is \<open>key:"\<close>.
\<close>

definition sampleOpen :: "string \<Rightarrow> open_result" where
  "sampleOpen path =
     (if path = ''app.config''
      then Opened [''# settings'', ''mode: '' @ [CHR 0x22] @ ''staging'' @ [CHR 0x22], ''mode : test'']
             None
      else if path = ''locked.config'' then OpenError ''permission denied''
      else if path = ''broken.config'' then Opened [''mode: test''] (Some ''input/output error'')
      else if path = ''quoted.config'' then Opened [''name: Alice'', ''key:'' @ [CHR 0x22]] None
      else ErrNotExist)"

definition sampleWorld :: "string list \<Rightarrow> (string \<rightharpoonup> string) \<Rightarrow> world" where
  "sampleWorld args env = \<lparr>osArgs = ''cmd'' # args, lookupEnv = env, osOpen = sampleOpen\<rparr>"

definition sampleStart :: "unit state" where
  "sampleStart = \<lparr>vals = sampleZero, isSet = initializeIsSet sampleFields Map.empty\<rparr>"

definition freshGlobals :: globals where
  "freshGlobals = \<lparr>isLoaded = False, onceDone = False\<rparr>"

definition loadedGlobals :: globals where
  "loadedGlobals = \<lparr>isLoaded = True, onceDone = True\<rparr>"

text \<open>A struct with one field that is required and has a default:
  \<^verbatim>\<open>Port int `default:"80" required:"true"`\<close>.\<close>

definition samplePort :: "field list" where
  "samplePort = [mkField ''Port'' TInt [(''default'', ''80''), (''required'', ''true'')]]"

section \<open>Properties of a pass\<close>

lemma setDefault_passStep: "setDefault lib flds st = setFields flds (passStep lib defaultCand) st"
  unfolding setDefault_def passStep_def defaultCand_def
  by (rule arg_cong[where f="\<lambda>f. setFields flds f st"]) (auto simp: fun_eq_iff)

lemma loadFromEnv_passStep: "loadFromEnv lib w flds st = setFields flds (passStep lib (envCand w)) st"
  unfolding loadFromEnv_def passStep_def envCand_def
  by (rule arg_cong[where f="\<lambda>f. setFields flds f st"]) (auto simp: fun_eq_iff split: option.splits)

lemma loadFromArgs_passStep: "loadFromArgs lib w flds st = setFields flds (passStep lib (argCand lib w)) st"
  unfolding loadFromArgs_def passStep_def argCand_def
  by (rule arg_cong[where f="\<lambda>f. setFields flds f st"]) (auto simp: fun_eq_iff Let_def split: option.splits)

lemma passStep_None_all:
  "(\<forall>f\<in>set flds. cand f = None) \<Longrightarrow> setFieldsFrom k flds (passStep lib cand) st = (None, st)"
  by (induction flds arbitrary: k) (auto simp: passStep_def)

lemma loadFromFile_passStep:
  "loadFromFile lib w flds file st =
     (case fileContentOf w file of
        Inl err \<Rightarrow> (Some err, st)
      | Inr m \<Rightarrow> setFields flds (passStep lib (fileCand m)) st)"
proof -
  have empty: "setFields flds (passStep lib (fileCand Map.empty)) st = (None, st)"
    unfolding setFields_def by (rule passStep_None_all) (simp add: fileCand_def)
  have step: "\<And>m. (\<lambda>fld i st. if fieldTag fld tagFile = [] then (None, st)
                 else (case m (fieldTag fld tagFile) of None \<Rightarrow> (None, st)
                       | Some fileValue \<Rightarrow> setAndMark lib fld i fileValue st))
              = passStep lib (fileCand m)"
    by (auto simp: fun_eq_iff passStep_def fileCand_def split: option.splits)
  show ?thesis
    unfolding loadFromFile_def fileContentOf_def step
    by (simp add: empty split: open_result.splits sum.splits option.splits)
qed

lemma setAndMark_cases:
  assumes "setAndMark lib fld i s st = (e, st')"
  shows "(\<exists>err. setFieldByKind lib fld s = Inl err \<and> e = Some err \<and> st' = st)
       \<or> (\<exists>v. setFieldByKind lib fld s = Inr v \<and> isSet st (fieldName fld) = None
              \<and> e = Some (Panic ''nil pointer dereference'') \<and> st' = st\<lparr>vals := (vals st)(i := v)\<rparr>)
       \<or> (\<exists>v b. setFieldByKind lib fld s = Inr v \<and> isSet st (fieldName fld) = Some b
              \<and> e = None \<and> st' = st\<lparr>vals := (vals st)(i := v), isSet := (isSet st)(fieldName fld \<mapsto> True)\<rparr>)"
  using assms by (auto simp: setAndMark_def split: sum.splits option.splits)

lemma passStep_frame:
  assumes "passStep lib cand fld k st = (e, st1)"
  shows "j \<noteq> k \<Longrightarrow> vals st1 j = vals st j"
    and "cand fld = None \<Longrightarrow> st1 = st \<and> e = None"
    and "n \<noteq> fieldName fld \<Longrightarrow> isSet st1 n = isSet st n"
  using assms
  by (auto simp: passStep_def split: option.splits dest!: setAndMark_cases)

lemma passStep_success:
  assumes "passStep lib cand fld k st = (None, st1)"
  shows "vals st1 k = assigned lib fld (cand fld) (vals st k)"
    and "isSet st1 n = (if fieldName fld = n \<and> cand fld \<noteq> None then Some True else isSet st n)"
    and "cand fld = Some s \<Longrightarrow> \<exists>v. setFieldByKind lib fld s = Inr v"
  using assms
  by (auto simp: passStep_def assigned_def split: option.splits dest!: setAndMark_cases)

lemma setFieldsFrom_Cons_cases:
  assumes "setFieldsFrom k (fld # rest) f st = (e, st')"
  obtains (stop) err where "f fld k st = (Some err, st')" "e = Some err"
        | (go) st1 where "f fld k st = (None, st1)" "setFieldsFrom (Suc k) rest f st1 = (e, st')"
  using assms by (cases "f fld k st") (auto split: option.splits)

lemma pass_vals_outside:
  "setFieldsFrom k flds (passStep lib cand) st = (e, st') \<Longrightarrow> j < k \<or> k + length flds \<le> j
     \<Longrightarrow> vals st' j = vals st j"
proof (induction flds arbitrary: k st)
  case Nil
  then show ?case by simp
next
  case (Cons fld rest)
  from Cons.prems(1) show ?case
  proof (cases rule: setFieldsFrom_Cons_cases)
    case (stop err)
    with Cons.prems(2) show ?thesis by (auto dest: passStep_frame(1)[where j=j])
  next
    case (go st1)
    from Cons.prems(2) have "j \<noteq> k" "j < Suc k \<or> Suc k + length rest \<le> j" by auto
    with Cons.IH[OF go(2)] passStep_frame(1)[OF go(1), of j] show ?thesis by simp
  qed
qed

lemma pass_vals_none:
  "setFieldsFrom k flds (passStep lib cand) st = (e, st') \<Longrightarrow> i < length flds
     \<Longrightarrow> cand (flds ! i) = None \<Longrightarrow> vals st' (k + i) = vals st (k + i)"
proof (induction flds arbitrary: k st i)
  case Nil
  then show ?case by simp
next
  case (Cons fld rest)
  from Cons.prems(1) show ?case
  proof (cases rule: setFieldsFrom_Cons_cases)
    case (stop err)
    show ?thesis
    proof (cases i)
      case 0
      with Cons.prems(3) stop show ?thesis by (auto dest: passStep_frame(2))
    next
      case (Suc i')
      with stop show ?thesis by (auto dest: passStep_frame(1)[where j="k + i"])
    qed
  next
    case (go st1)
    show ?thesis
    proof (cases i)
      case 0
      with Cons.prems(3) go(1) have "st1 = st" by (auto dest: passStep_frame(2))
      with pass_vals_outside[OF go(2), of k] 0 show ?thesis by simp
    next
      case (Suc i')
      with Cons.prems have "i' < length rest" "cand (rest ! i') = None" by auto
      from Cons.IH[OF go(2) this] passStep_frame(1)[OF go(1), of "k + i"] Suc
      show ?thesis by simp
    qed
  qed
qed

lemma pass_vals_success:
  "setFieldsFrom k flds (passStep lib cand) st = (None, st') \<Longrightarrow> i < length flds
     \<Longrightarrow> vals st' (k + i) = assigned lib (flds ! i) (cand (flds ! i)) (vals st (k + i))"
proof (induction flds arbitrary: k st i)
  case Nil
  then show ?case by simp
next
  case (Cons fld rest)
  from Cons.prems(1) show ?case
  proof (cases rule: setFieldsFrom_Cons_cases)
    case (stop err)
    then show ?thesis by simp
  next
    case (go st1)
    show ?thesis
    proof (cases i)
      case 0
      with pass_vals_outside[OF go(2), of k] passStep_success(1)[OF go(1)] show ?thesis by simp
    next
      case (Suc i')
      with Cons.prems have "i' < length rest" by auto
      from Cons.IH[OF go(2) this] passStep_frame(1)[OF go(1), of "k + i"] Suc
      show ?thesis by simp
    qed
  qed
qed

lemma pass_isSet_frame:
  "setFieldsFrom k flds (passStep lib cand) st = (e, st')
     \<Longrightarrow> (\<forall>f\<in>set flds. fieldName f = n \<longrightarrow> cand f = None) \<Longrightarrow> isSet st' n = isSet st n"
proof (induction flds arbitrary: k st)
  case Nil
  then show ?case by simp
next
  case (Cons fld rest)
  have step: "\<And>e1 st1. passStep lib cand fld k st = (e1, st1) \<Longrightarrow> isSet st1 n = isSet st n"
    using Cons.prems(2) passStep_frame(2,3) by (metis list.set_intros(1))
  from Cons.prems(1) show ?case
  proof (cases rule: setFieldsFrom_Cons_cases)
    case (stop err)
    then show ?thesis using step by simp
  next
    case (go st1)
    with Cons.IH[OF go(2)] Cons.prems(2) step show ?thesis by simp
  qed
qed

lemma pass_isSet_success:
  "setFieldsFrom k flds (passStep lib cand) st = (None, st')
     \<Longrightarrow> isSet st' n = (if \<exists>f\<in>set flds. fieldName f = n \<and> cand f \<noteq> None then Some True else isSet st n)"
proof (induction flds arbitrary: k st)
  case Nil
  then show ?case by simp
next
  case (Cons fld rest)
  from Cons.prems(1) show ?case
  proof (cases rule: setFieldsFrom_Cons_cases)
    case (stop err)
    then show ?thesis by simp
  next
    case (go st1)
    from Cons.IH[OF go(2)] passStep_success(2)[OF go(1), of n] show ?thesis by auto
  qed
qed

lemma pass_converts:
  "setFieldsFrom k flds (passStep lib cand) st = (None, st') \<Longrightarrow> f \<in> set flds \<Longrightarrow> cand f = Some s
     \<Longrightarrow> \<exists>v. setFieldByKind lib f s = Inr v"
proof (induction flds arbitrary: k st)
  case Nil
  then show ?case by simp
next
  case (Cons fld rest)
  from Cons.prems(1) show ?case
  proof (cases rule: setFieldsFrom_Cons_cases)
    case (stop err)
    then show ?thesis by simp
  next
    case (go st1)
    from Cons.IH[OF go(2)] passStep_success(3)[OF go(1)] Cons.prems(2,3) show ?thesis by auto
  qed
qed

lemma initializeIsSet_apply:
  "initializeIsSet flds m n = (if n \<in> fieldName ` set flds then Some False else m n)"
  by (induction flds arbitrary: m) auto

lemma fourPasses_success:
  assumes "fourPasses lib w flds file st = (None, st4)"
  obtains m st1 st2 st3 where
    "fileContentOf w file = Inr m"
    "setFieldsFrom 0 flds (passStep lib defaultCand) st = (None, st1)"
    "setFieldsFrom 0 flds (passStep lib (fileCand m)) st1 = (None, st2)"
    "setFieldsFrom 0 flds (passStep lib (envCand w)) st2 = (None, st3)"
    "setFieldsFrom 0 flds (passStep lib (argCand lib w)) st3 = (None, st4)"
  using assms
  unfolding fourPasses_def setDefault_passStep loadFromFile_passStep loadFromEnv_passStep
    loadFromArgs_passStep setFields_def
  by (auto split: prod.splits option.splits sum.splits)

lemma assigned_Some:
  "setFieldByKind lib fld s = Inr v \<Longrightarrow> assigned lib fld (Some s) old = v"
  by (simp add: assigned_def)

lemma fourPasses_value:
  assumes ok: "fourPasses lib w flds file st = (None, st4)" and i: "i < length flds"
  shows "case candidate lib w file (flds ! i) of
           None \<Rightarrow> vals st4 i = vals st i
         | Some s \<Rightarrow> setFieldByKind lib (flds ! i) s = Inr (vals st4 i)"
proof -
  let ?f = "flds ! i"
  from ok obtain m st1 st2 st3 where
    m: "fileContentOf w file = Inr m" and
    p1: "setFieldsFrom 0 flds (passStep lib defaultCand) st = (None, st1)" and
    p2: "setFieldsFrom 0 flds (passStep lib (fileCand m)) st1 = (None, st2)" and
    p3: "setFieldsFrom 0 flds (passStep lib (envCand w)) st2 = (None, st3)" and
    p4: "setFieldsFrom 0 flds (passStep lib (argCand lib w)) st3 = (None, st4)"
    by (rule fourPasses_success)
  from i have mem: "?f \<in> set flds" by simp
  have v1: "vals st1 i = assigned lib ?f (defaultCand ?f) (vals st i)"
    using pass_vals_success[OF p1 i] by simp
  have v2: "vals st2 i = assigned lib ?f (fileCand m ?f) (vals st1 i)"
    using pass_vals_success[OF p2 i] by simp
  have v3: "vals st3 i = assigned lib ?f (envCand w ?f) (vals st2 i)"
    using pass_vals_success[OF p3 i] by simp
  have v4: "vals st4 i = assigned lib ?f (argCand lib w ?f) (vals st3 i)"
    using pass_vals_success[OF p4 i] by simp
  have c1: "\<And>s. defaultCand ?f = Some s \<Longrightarrow> \<exists>v. setFieldByKind lib ?f s = Inr v"
    using pass_converts[OF p1 mem] .
  have c2: "\<And>s. fileCand m ?f = Some s \<Longrightarrow> \<exists>v. setFieldByKind lib ?f s = Inr v"
    using pass_converts[OF p2 mem] .
  have c3: "\<And>s. envCand w ?f = Some s \<Longrightarrow> \<exists>v. setFieldByKind lib ?f s = Inr v"
    using pass_converts[OF p3 mem] .
  have c4: "\<And>s. argCand lib w ?f = Some s \<Longrightarrow> \<exists>v. setFieldByKind lib ?f s = Inr v"
    using pass_converts[OF p4 mem] .
  have fm: "fileMap w file = m" by (simp add: fileMap_def m)
  show ?thesis
  proof (cases "argCand lib w ?f")
    case (Some a)
    with c4 v4 show ?thesis by (auto simp: candidate_def precedence_def assigned_def)
  next
    case aN: None
    show ?thesis
    proof (cases "envCand w ?f")
      case (Some e)
      with c3 v3 v4 aN show ?thesis by (auto simp: candidate_def precedence_def assigned_def)
    next
      case eN: None
      show ?thesis
      proof (cases "fileCand m ?f")
        case (Some x)
        with c2 v2 v3 v4 aN eN fm show ?thesis
          by (auto simp: candidate_def precedence_def assigned_def)
      next
        case fN: None
        show ?thesis
        proof (cases "defaultCand ?f")
          case (Some d)
          with c1 v1 v2 v3 v4 aN eN fN fm show ?thesis
            by (auto simp: candidate_def precedence_def assigned_def)
        next
          case None
          with v1 v2 v3 v4 aN eN fN fm show ?thesis
            by (auto simp: candidate_def precedence_def assigned_def)
        qed
      qed
    qed
  qed
qed

lemma Load_Return_None_cases:
  assumes "Load lib w g (StructPtr flds vs) file = Return None cfg' g'"
  shows "(isLoaded g \<or> mageCommandGiven (osArgs w)) \<and> cfg' = StructPtr flds vs \<and> g' = g
       \<or> (\<not> isLoaded g \<and> \<not> mageCommandGiven (osArgs w) \<and> \<not> isHelpRequested (osArgs w)
          \<and> (\<exists>st. fourPasses lib w flds file \<lparr>vals = vs, isSet = initializeIsSet flds Map.empty\<rparr> = (None, st)
                \<and> checkRequiredAndDepends flds (isSet st) = None
                \<and> cfg' = StructPtr flds (vals st) \<and> g' = onceDo g))"
  using assms
  by (auto simp: Load_def split: if_splits prod.splits option.splits)

lemma candidate_None_iff:
  "candidate lib w file f = None \<longleftrightarrow>
     defaultCand f = None \<and> fileCand (fileMap w file) f = None \<and> envCand w f = None \<and> argCand lib w f = None"
  by (auto simp: candidate_def precedence_def split: option.splits)

lemma loadFromFile_fileMap:
  "loadFromFile lib w flds file st =
     (case fileContentOf w file of
        Inl err \<Rightarrow> (Some err, st)
      | Inr m \<Rightarrow> setFieldsFrom 0 flds (passStep lib (fileCand (fileMap w file))) st)"
  by (simp add: loadFromFile_passStep fileMap_def setFields_def split: sum.splits)

lemma fourPasses_cases:
  assumes "fourPasses lib w flds file st = (e, st')"
  obtains st1 st2 st3 e1 e2 e3 e4 where
    "setFieldsFrom 0 flds (passStep lib defaultCand) st = (e1, st1)"
    "setFieldsFrom 0 flds (passStep lib (fileCand (fileMap w file))) st1 = (e2, st2) \<or> st2 = st1"
    "setFieldsFrom 0 flds (passStep lib (envCand w)) st2 = (e3, st3) \<or> st3 = st2"
    "setFieldsFrom 0 flds (passStep lib (argCand lib w)) st3 = (e4, st') \<or> st' = st3"
proof -
  obtain e1 st1 where p1: "setFieldsFrom 0 flds (passStep lib defaultCand) st = (e1, st1)"
    by (cases "setFieldsFrom 0 flds (passStep lib defaultCand) st")
  obtain e2 st2 where p2: "loadFromFile lib w flds file st1 = (e2, st2)"
    by (cases "loadFromFile lib w flds file st1")
  obtain e3 st3 where p3: "setFieldsFrom 0 flds (passStep lib (envCand w)) st2 = (e3, st3)"
    by (cases "setFieldsFrom 0 flds (passStep lib (envCand w)) st2")
  obtain e4 st4 where p4: "setFieldsFrom 0 flds (passStep lib (argCand lib w)) st3 = (e4, st4)"
    by (cases "setFieldsFrom 0 flds (passStep lib (argCand lib w)) st3")
  from p2 have p2': "setFieldsFrom 0 flds (passStep lib (fileCand (fileMap w file))) st1 = (e2, st2) \<or> st2 = st1"
    by (auto simp: loadFromFile_fileMap split: sum.splits)
  show ?thesis
  proof (cases e1)
    case (Some a)
    with assms p1 have "st' = st1"
      by (simp add: fourPasses_def setDefault_passStep setFields_def)
    then show ?thesis using that[OF p1, of e2 st1 e3 st1 e4] by simp
  next
    case n1: None
    show ?thesis
    proof (cases e2)
      case (Some a)
      with assms p1 p2 n1 have "st' = st2"
        by (simp add: fourPasses_def setDefault_passStep setFields_def)
      then show ?thesis using that[OF p1 p2', of e3 st2 e4] by simp
    next
      case n2: None
      show ?thesis
      proof (cases e3)
        case (Some a)
        with assms p1 p2 p3 n1 n2 have "st' = st3"
          by (simp add: fourPasses_def setDefault_passStep loadFromEnv_passStep setFields_def)
        then show ?thesis using that[OF p1 p2', of e3 st3 e4] p3 by simp
      next
        case n3: None
        with assms p1 p2 p3 p4 n1 n2 have "st' = st4"
          by (simp add: fourPasses_def setDefault_passStep loadFromEnv_passStep
               loadFromArgs_passStep setFields_def)
        then show ?thesis using that[OF p1 p2', of e3 st3 e4] p3 p4 by simp
      qed
    qed
  qed
qed

lemma fourPasses_frame_vals:
  assumes "fourPasses lib w flds file st = (e, st')" and "i < length flds"
      and "candidate lib w file (flds ! i) = None"
    shows "vals st' i = vals st i"
proof -
  from assms(3) have c: "defaultCand (flds ! i) = None" "fileCand (fileMap w file) (flds ! i) = None"
    "envCand w (flds ! i) = None" "argCand lib w (flds ! i) = None"
    by (simp_all add: candidate_None_iff)
  from assms(1) obtain st1 st2 st3 e1 e2 e3 e4 where
    p1: "setFieldsFrom 0 flds (passStep lib defaultCand) st = (e1, st1)" and
    p2: "setFieldsFrom 0 flds (passStep lib (fileCand (fileMap w file))) st1 = (e2, st2) \<or> st2 = st1" and
    p3: "setFieldsFrom 0 flds (passStep lib (envCand w)) st2 = (e3, st3) \<or> st3 = st2" and
    p4: "setFieldsFrom 0 flds (passStep lib (argCand lib w)) st3 = (e4, st') \<or> st' = st3"
    by (rule fourPasses_cases)
  have "vals st1 i = vals st i" using pass_vals_none[OF p1 assms(2) c(1)] by simp
  moreover have "vals st2 i = vals st1 i" using p2 assms(2) c(2) pass_vals_none[of 0 flds lib "fileCand (fileMap w file)" st1 e2 st2 i] by auto
  moreover have "vals st3 i = vals st2 i" using p3 assms(2) c(3) pass_vals_none[of 0 flds lib "envCand w" st2 e3 st3 i] by auto
  moreover have "vals st' i = vals st3 i" using p4 assms(2) c(4) pass_vals_none[of 0 flds lib "argCand lib w" st3 e4 st' i] by auto
  ultimately show ?thesis by simp
qed

lemma fourPasses_frame_isSet:
  assumes "fourPasses lib w flds file st = (e, st')"
      and "\<forall>f\<in>set flds. fieldName f = n \<longrightarrow> candidate lib w file f = None"
    shows "isSet st' n = isSet st n"
proof -
  from assms(2) have c:
    "\<forall>f\<in>set flds. fieldName f = n \<longrightarrow> defaultCand f = None"
    "\<forall>f\<in>set flds. fieldName f = n \<longrightarrow> fileCand (fileMap w file) f = None"
    "\<forall>f\<in>set flds. fieldName f = n \<longrightarrow> envCand w f = None"
    "\<forall>f\<in>set flds. fieldName f = n \<longrightarrow> argCand lib w f = None"
    by (simp_all add: candidate_None_iff)
  from assms(1) obtain st1 st2 st3 e1 e2 e3 e4 where
    p1: "setFieldsFrom 0 flds (passStep lib defaultCand) st = (e1, st1)" and
    p2: "setFieldsFrom 0 flds (passStep lib (fileCand (fileMap w file))) st1 = (e2, st2) \<or> st2 = st1" and
    p3: "setFieldsFrom 0 flds (passStep lib (envCand w)) st2 = (e3, st3) \<or> st3 = st2" and
    p4: "setFieldsFrom 0 flds (passStep lib (argCand lib w)) st3 = (e4, st') \<or> st' = st3"
    by (rule fourPasses_cases)
  have "isSet st1 n = isSet st n" using pass_isSet_frame[OF p1 c(1)] .
  moreover have "isSet st2 n = isSet st1 n" using p2 c(2) pass_isSet_frame[of 0 flds lib "fileCand (fileMap w file)" st1 e2 st2 n] by auto
  moreover have "isSet st3 n = isSet st2 n" using p3 c(3) pass_isSet_frame[of 0 flds lib "envCand w" st2 e3 st3 n] by auto
  moreover have "isSet st' n = isSet st3 n" using p4 c(4) pass_isSet_frame[of 0 flds lib "argCand lib w" st3 e4 st' n] by auto
  ultimately show ?thesis by simp
qed

lemma distinct_name_unique:
  "distinct (map fieldName flds) \<Longrightarrow> f \<in> set flds \<Longrightarrow> f' \<in> set flds \<Longrightarrow> fieldName f' = fieldName f \<Longrightarrow> f' = f"
  by (metis distinct_map inj_onD)


section \<open>Properties of the argument scanner\<close>

lemma scanArgs_Cons:
  "scanArgs n b (a # rest) =
     (case tokenValue n b a rest of Some v \<Rightarrow> v | None \<Rightarrow> scanArgs n b rest)"
  by (simp add: tokenValue_def Let_def split: list.splits)

lemma scanArgs_unmatched:
  "unmatched n b pre rest \<Longrightarrow> scanArgs n b (pre @ rest) = scanArgs n b rest"
proof (induction pre)
  case Nil
  then show ?case by simp
next
  case (Cons a pre)
  then have "tokenValue n b a (pre @ rest) = None" and "unmatched n b pre rest" by simp_all
  with Cons.IH show ?case by (simp only: append_Cons scanArgs_Cons option.case)
qed

lemma Index_append_eq:
  "c \<notin> set n \<Longrightarrow> Index (n @ c # v) c = int (length n)"
proof -
  assume "c \<notin> set n"
  then have "takeWhile (\<lambda>x. x \<noteq> c) (n @ c # v) = n"
    by (induction n) auto
  then show ?thesis by (simp add: Index_def)
qed

lemma Index_absent: "c \<notin> set n \<Longrightarrow> Index n c = - 1"
  by (simp add: Index_def)

lemma tokenValue_equals:
  assumes "n \<noteq> []" "CHR ''='' \<notin> set n" "TrimLeft a argPrefix = n @ CHR ''='' # v"
  shows "tokenValue n b a rest = Some v"
  using assms by (simp add: tokenValue_def Let_def Index_append_eq)

lemma tokenValue_standalone:
  assumes "CHR ''='' \<notin> set n" "TrimLeft a argPrefix = n"
  shows "tokenValue n b a rest =
           (case rest of
              next # _ \<Rightarrow> if \<not> HasPrefix next argPrefix then Some next
                          else if b then Some ''true'' else None
            | [] \<Rightarrow> if b then Some ''true'' else None)"
  using assms by (simp add: tokenValue_def Let_def Index_absent)

lemma getArgValue_first:
  assumes "osArgs w = prog # pre @ a # rest" "unmatched n b pre (a # rest)"
  shows "getArgValue w n b = (case tokenValue n b a rest of Some v \<Rightarrow> v | None \<Rightarrow> scanArgs n b rest)"
  using assms by (simp add: getArgValue_def scanArgs_unmatched scanArgs_Cons del: scanArgs.simps)

lemma getArgValue_empty:
  assumes "osArgs w = prog # pre @ a # rest" "unmatched n b pre (a # rest)"
      and "n \<noteq> []" "CHR ''='' \<notin> set n"
      and "TrimLeft a argPrefix = n @ ''='' \<or> (TrimLeft a argPrefix = n \<and> (\<exists>rest'. rest = [] # rest'))"
    shows "getArgValue w n b = []"
proof -
  from assms(5) have "tokenValue n b a rest = Some []"
  proof
    assume "TrimLeft a argPrefix = n @ ''=''"
    with assms(3,4) show ?thesis by (simp add: tokenValue_equals)
  next
    assume "TrimLeft a argPrefix = n \<and> (\<exists>rest'. rest = [] # rest')"
    with assms(4) show ?thesis by (auto simp: tokenValue_standalone HasPrefix_def)
  qed
  with getArgValue_first[OF assms(1,2)] show ?thesis by simp
qed

lemma getArgValue_bare_flag:
  assumes "osArgs w = prog # pre @ a # rest" "unmatched n True pre (a # rest)"
      and "CHR ''='' \<notin> set n" "TrimLeft a argPrefix = n"
      and "case rest of [] \<Rightarrow> True | next # _ \<Rightarrow> HasPrefix next argPrefix"
    shows "getArgValue w n True = ''true''"
  using getArgValue_first[OF assms(1,2)] assms(3,4,5)
  by (auto simp: tokenValue_standalone split: list.splits)

lemma setFieldByKind_true:
  "fieldType fld = TBool \<Longrightarrow> setFieldByKind lib fld ''true'' = Inr v \<Longrightarrow> v = Scalar (VBool True)"
  by (auto simp: setFieldByKind_def Set_def parsed_def ParseBool_def split: if_splits)

lemma setFieldByKind_true_exported:
  "fieldType fld = TBool \<Longrightarrow> fieldExported fld
     \<Longrightarrow> setFieldByKind lib fld ''true'' = Inr (Scalar (VBool True))"
  by (simp add: setFieldByKind_def Set_def parsed_def ParseBool_def)

section \<open>Properties of the validation pass\<close>

lemma firstOf_append: "firstOf (xs @ ys) = (case firstOf xs of Some e \<Rightarrow> Some e | None \<Rightarrow> firstOf ys)"
  by (cases xs) (simp_all add: firstOf_def)

lemma checkDepends_first:
  "checkDepends ds m = firstOf (map DependsNotSetError (filter (notSet m) ds))"
  by (induction ds) (simp_all add: firstOf_def)

lemma checkRequiredAndDepends_first:
  "checkRequiredAndDepends flds m = firstOf (violations flds m)"
proof (induction flds)
  case Nil
  then show ?case by (simp add: violations_def firstOf_def)
next
  case (Cons fld rest)
  have v: "violations (fld # rest) m = fieldViolations m fld @ violations rest m"
    by (simp add: violations_def)
  show ?case
    unfolding v firstOf_append
    using Cons.IH
    by (simp add: fieldViolations_def checkDepends_first firstOf_append firstOf_def
        split: option.splits list.splits)
qed

section \<open>Properties of the map conversion\<close>

lemma map_of_SetMapIndex: "map_of (SetMapIndex m k v) = (map_of m)(k \<mapsto> v)"
  by (induction m k v rule: SetMapIndex.induct) (auto simp: fun_eq_iff)

lemma setMapPairs_step_ok:
  "pairOk lib t pair \<Longrightarrow>
     setMapPairs lib t (pair # rest) m =
       setMapPairs lib t rest (SetMapIndex m (fst (entryOf lib t pair)) (snd (entryOf lib t pair)))"
  by (auto simp: pairOk_def entryOf_def keyOf_def valueTextOf_def SplitN2_def split: sum.splits)

lemma setMapPairs_bad:
  "kvSeparator \<notin> set pair \<Longrightarrow> setMapPairs lib t (pair # rest) m = Inl (MapFormatError pair)"
  by (simp add: SplitN2_def)

lemma setMapPairs_malformed:
  "list_all (pairOk lib t) pre \<Longrightarrow> kvSeparator \<notin> set pair
     \<Longrightarrow> setMapPairs lib t (pre @ pair # post) m = Inl (MapFormatError pair)"
proof (induction pre arbitrary: m)
  case Nil
  then show ?case by (simp add: setMapPairs_bad del: setMapPairs.simps)
next
  case (Cons p pre)
  then show ?case by (simp add: setMapPairs_step_ok del: setMapPairs.simps)
qed

lemma setMapPairs_ok:
  "list_all (pairOk lib t) toks
     \<Longrightarrow> \<exists>al. setMapPairs lib t toks m = Inr al
             \<and> map_of al = map_of m ++ map_of (rev (map (entryOf lib t) toks))"
proof (induction toks arbitrary: m)
  case Nil
  then show ?case by simp
next
  case (Cons p toks)
  let ?m' = "SetMapIndex m (fst (entryOf lib t p)) (snd (entryOf lib t p))"
  from Cons.prems have ok: "pairOk lib t p" and rest: "list_all (pairOk lib t) toks" by simp_all
  from Cons.IH[OF rest, of ?m'] obtain al where
    al: "setMapPairs lib t toks ?m' = Inr al"
        "map_of al = map_of ?m' ++ map_of (rev (map (entryOf lib t) toks))"
    by blast
  have "map_of ?m' ++ map_of (rev (map (entryOf lib t) toks))
      = map_of m ++ map_of (rev (map (entryOf lib t) (p # toks)))"
    by (cases "entryOf lib t p")
       (simp add: map_of_SetMapIndex map_add_def fun_eq_iff split: option.splits)
  with al ok show ?case by (simp add: setMapPairs_step_ok del: setMapPairs.simps)
qed

section \<open>Properties of the file pass\<close>

lemma loadFromFile_missing:
  "file \<noteq> [] \<Longrightarrow> osOpen w file = ErrNotExist \<Longrightarrow> loadFromFile lib w flds file st = (None, st)"
  by (simp add: loadFromFile_def)

lemma loadFromFile_empty_path: "loadFromFile lib w flds [] st = (None, st)"
  by (simp add: loadFromFile_def)

lemma fourPasses_missing_file:
  assumes "osOpen w file = ErrNotExist"
  shows "fourPasses lib w flds file st = fourPasses lib w flds [] st"
proof -
  have "\<And>st1. loadFromFile lib w flds file st1 = loadFromFile lib w flds [] st1"
    using assms by (simp add: loadFromFile_def)
  then show ?thesis unfolding fourPasses_def by (simp only:)
qed

lemma Load_missing_file:
  "osOpen w file = ErrNotExist \<Longrightarrow> Load lib w g cfg file = Load lib w g cfg []"
  unfolding Load_def by (simp only: fourPasses_missing_file)

lemma loadFromFile_open_error:
  "file \<noteq> [] \<Longrightarrow> osOpen w file = OpenError msg
     \<Longrightarrow> loadFromFile lib w flds file st = (Some (FileAccessError msg), st)"
  by (simp add: loadFromFile_def)

lemma loadFromFile_read_error:
  "file \<noteq> [] \<Longrightarrow> osOpen w file = Opened lines (Some msg) \<Longrightarrow> readLines lines Map.empty = Inr m
     \<Longrightarrow> loadFromFile lib w flds file st = (Some (FileAccessError msg), st)"
  by (simp add: loadFromFile_def)

lemma Load_file_error:
  assumes "\<not> isHelpRequested (osArgs w)" "\<not> isLoaded g" "\<not> mageCommandGiven (osArgs w)"
      and "setDefault lib flds \<lparr>vals = vs, isSet = initializeIsSet flds Map.empty\<rparr> = (None, st1)"
      and "loadFromFile lib w flds file st1 = (Some err, st2)"
    shows "Load lib w g (StructPtr flds vs) file = Return (Some err) (StructPtr flds (vals st2)) g"
  using assms by (simp add: Load_def fourPasses_def)

text \<open>
  The scanner loop builds the map of the entries of the lines, a later line for a key
  replacing an earlier one, unless a line has a single quote character as its trimmed value
  text; then it panics.
\<close>

lemma stripQuotes_unquote:
  assumes "v \<noteq> [CHR 0x22]" "v \<noteq> [CHR 0x27]"
  shows "stripQuotes v = Inr (unquote v)"
proof (cases "length v \<le> 1")
  case True
  then consider "v = []" | c where "v = [c]"
    by (cases v) (auto simp: length_Suc_conv)
  then show ?thesis
  proof cases
    case 1
    then show ?thesis by (simp add: stripQuotes_def unquote_def)
  next
    case 2
    with assms show ?thesis by (auto simp: stripQuotes_def unquote_def)
  qed
next
  case False
  then have len: "2 \<le> length v" by simp
  then have "take (length v - Suc (Suc 0)) (drop (Suc 0) v) = butlast (tl v)"
    by (simp add: butlast_conv_take drop_Suc)
  with len show ?thesis
    by (auto simp: stripQuotes_def unquote_def slice_def)
qed

lemma stripQuotes_lone:
  "v = [CHR 0x22] \<or> v = [CHR 0x27] \<Longrightarrow> stripQuotes v = Inl (Panic ''slice bounds out of range'')"
  by (auto simp: stripQuotes_def slice_def)

lemma parseLine_lineEntry: "\<not> loneQuote line \<Longrightarrow> parseLine line = Inr (lineEntry line)"
  by (auto simp: parseLine_def SplitN2_def lineEntry_def loneQuote_def keyOf_def valueTextOf_def
      stripQuotes_unquote)

lemma parseLine_loneQuote:
  "loneQuote line \<Longrightarrow> parseLine line = Inl (Panic ''slice bounds out of range'')"
  by (auto simp: parseLine_def SplitN2_def loneQuote_def valueTextOf_def stripQuotes_lone)

lemma readLines_entries:
  "list_all (\<lambda>line. \<not> loneQuote line) lines
     \<Longrightarrow> readLines lines m = Inr (m ++ map_of (rev (List.map_filter lineEntry lines)))"
proof (induction lines arbitrary: m)
  case Nil
  then show ?case by (simp add: map_filter_simps)
next
  case (Cons line rest)
  then have p: "parseLine line = Inr (lineEntry line)" and r: "list_all (\<lambda>line. \<not> loneQuote line) rest"
    by (simp_all add: parseLine_lineEntry)
  show ?case
  proof (cases "lineEntry line")
    case None
    with p Cons.IH[OF r] show ?thesis by (simp add: map_filter_simps)
  next
    case (Some kv)
    obtain k v where kv: "kv = (k, v)" by (cases kv)
    have e: "m(k \<mapsto> v) ++ map_of (rev (List.map_filter lineEntry rest))
        = m ++ map_of (rev (List.map_filter lineEntry rest) @ [(k, v)])"
      by (simp add: map_add_def fun_eq_iff split: option.splits)
    have "readLines (line # rest) m = readLines rest (m(k \<mapsto> v))"
      using p Some kv by simp
    also have "\<dots> = Inr (m(k \<mapsto> v) ++ map_of (rev (List.map_filter lineEntry rest)))"
      by (rule Cons.IH[OF r])
    also have "\<dots> = Inr (m ++ map_of (rev (List.map_filter lineEntry (line # rest))))"
      using Some kv by (simp only: e map_filter_simps option.case rev.simps)
    finally show ?thesis .
  qed
qed

lemma readLines_panics:
  "\<not> list_all (\<lambda>line. \<not> loneQuote line) lines
     \<Longrightarrow> readLines lines m = Inl (Panic ''slice bounds out of range'')"
proof (induction lines arbitrary: m)
  case Nil
  then show ?case by simp
next
  case (Cons line rest)
  show ?case
  proof (cases "loneQuote line")
    case True
    then show ?thesis by (simp add: parseLine_loneQuote)
  next
    case False
    with Cons.prems have "\<not> list_all (\<lambda>line. \<not> loneQuote line) rest" by simp
    from Cons.IH[OF this] False show ?thesis
      by (simp add: parseLine_lineEntry split: option.splits)
  qed
qed

section \<open>Helper facts about the outcome of \<open>Load\<close>\<close>

lemma returnsNil_Load:
  assumes "returnsNil (Load lib w g (StructPtr flds vs) file)"
  shows "\<exists>vs' g'. Load lib w g (StructPtr flds vs) file = Return None (StructPtr flds vs') g'"
  using assms
  by (auto simp: returnsNil_def Load_def split: if_splits prod.splits option.splits)

lemma Load_Return_cases:
  assumes "Load lib w g (StructPtr flds vs) file = Return e cfg' g'"
  shows "cfg' = StructPtr flds vs
       \<or> (\<exists>e' st. fourPasses lib w flds file \<lparr>vals = vs, isSet = initializeIsSet flds Map.empty\<rparr> = (e', st)
              \<and> cfg' = StructPtr flds (vals st))"
  using assms
  by (auto simp: Load_def split: if_splits prod.splits option.splits)

lemma pair_fst_snd: "fst p = a \<Longrightarrow> p = (a, snd p)"
  by (cases p) simp

section \<open>The two revisions of the defaults pass\<close>

lemma setDefault_earlier_isSet:
  "isSet (snd (setFieldsFrom k flds
       (\<lambda>fld i st.
          if fieldTag fld tagDefault = [] then (None, st)
          else
            (case setFieldByKind lib fld (fieldTag fld tagDefault) of
               Inl err \<Rightarrow> (Some err, st)
             | Inr v \<Rightarrow> (None, st\<lparr>vals := (vals st)(i := v)\<rparr>)))
       st)) = isSet st"
  by (induction flds arbitrary: k st) (auto split: sum.splits)

lemma setDefault_earlier_leaves_flags:
  "isSet (snd (setDefault_earlier lib flds st)) = isSet st"
  unfolding setDefault_earlier_def setFields_def by (rule setDefault_earlier_isSet)

text \<open>
  A field that is required and has a default, and no other source: the later revision
  returns \<open>nil\<close>, the earlier one reports the field as not set.
\<close>

lemma required_with_default_in_both_revisions:
  "returnedError (Load sampleLib (sampleWorld [] Map.empty) freshGlobals
                    (StructPtr samplePort sampleZero) []) = None
   \<and> fieldAfter (Load sampleLib (sampleWorld [] Map.empty) freshGlobals
                    (StructPtr samplePort sampleZero) []) 0 = Some (Scalar (VInt 80))
   \<and> returnedError (Load_earlier sampleLib (sampleWorld [] Map.empty) freshGlobals
                    (StructPtr samplePort sampleZero) []) = Some (RequiredNotSetError ''Port'')
   \<and> fieldAfter (Load_earlier sampleLib (sampleWorld [] Map.empty) freshGlobals
                    (StructPtr samplePort sampleZero) []) 0 = Some (Scalar (VInt 80))"
  by code_simp

section \<open>The claims\<close>

subsection \<open>C1: the precedence law\<close>

text \<open>
  Claim C1: after a successful \<open>Load\<close>, the final value of a field is the converted
  argument-pass value when an argument match is present, else the environment value, else the
  file value, else the default, else the field is untouched.

  As stated the claim fails on the code in two ways, both written into \<open>Load\<close> and
  \<open>loadFromArgs\<close> on purpose.  First, \<open>Load\<close> returns \<open>nil\<close> without running any pass when
  the package variable \<open>isLoaded\<close> is set or when an argument is one of the default Mage
  commands \<open>-l\<close> and \<open>-h\<close>.  Second, \<open>loadFromArgs\<close> reads the empty string that the scanner
  returns as "no value found", so a matching token \<open>--mode=\<close> does not reach the field.  The
  calls below return \<open>nil\<close> with an argument match for the field \<open>Mode\<close> (index 4) present,
  and leave \<open>Mode\<close> at a value that is not the converted argument value: a call with
  \<open>isLoaded\<close> set, a call with the argument \<open>-l\<close>, and a call with \<open>--mode=\<close> while the
  environment has \<open>MODE=env\<close>, the last one in both revisions of \<open>Load\<close>.
\<close>

theorem Load_precedence_counterexample:
  "returnsNil (Load sampleLib (sampleWorld [''--primary=p'', ''--name=Alice'', ''--mode=prod''] Map.empty)
                 loadedGlobals (StructPtr sampleFields sampleZero) [])
   \<and> tokenValue ''mode'' False ''--mode=prod'' [] = Some ''prod''
   \<and> fieldAfter (Load sampleLib (sampleWorld [''--primary=p'', ''--name=Alice'', ''--mode=prod''] Map.empty)
                 loadedGlobals (StructPtr sampleFields sampleZero) []) 4
       = Some (Scalar (VString []))
   \<and> returnsNil (Load sampleLib (sampleWorld [''-l'', ''--mode=prod''] Map.empty)
                 freshGlobals (StructPtr sampleFields sampleZero) [])
   \<and> fieldAfter (Load sampleLib (sampleWorld [''-l'', ''--mode=prod''] Map.empty)
                 freshGlobals (StructPtr sampleFields sampleZero) []) 4
       = Some (Scalar (VString []))
   \<and> returnsNil (Load sampleLib
                   (sampleWorld [''--primary=p'', ''--name=Alice'', ''--mode=''] [''MODE'' \<mapsto> ''env''])
                 freshGlobals (StructPtr sampleFields sampleZero) [])
   \<and> tokenValue ''mode'' False ''--mode='' [] = Some []
   \<and> setFieldByKind sampleLib (sampleFields ! 4) [] = Inr (Scalar (VString []))
   \<and> fieldAfter (Load sampleLib
                   (sampleWorld [''--primary=p'', ''--name=Alice'', ''--mode=''] [''MODE'' \<mapsto> ''env''])
                 freshGlobals (StructPtr sampleFields sampleZero) []) 4
       = Some (Scalar (VString ''env''))
   \<and> returnsNil (Load_earlier sampleLib
                   (sampleWorld [''--primary=p'', ''--name=Alice'', ''--mode=''] [''MODE'' \<mapsto> ''env''])
                 freshGlobals (StructPtr sampleFields sampleZero) [])
   \<and> fieldAfter (Load_earlier sampleLib
                   (sampleWorld [''--primary=p'', ''--name=Alice'', ''--mode=''] [''MODE'' \<mapsto> ''env''])
                 freshGlobals (StructPtr sampleFields sampleZero) []) 4
       = Some (Scalar (VString ''env''))"
  by code_simp

text \<open>
  Claim C1, amended: when \<open>Load\<close> runs its passes (\<open>isLoaded\<close> is not set and no argument is a
  default Mage command) and returns \<open>nil\<close>, the final value of each field is the conversion of
  its candidate, that is of the first source, in the order arguments, environment, file,
  default, that supplies a value; the argument pass supplies the value of \<open>getArgValue\<close> when
  it is not empty.  A field with no candidate keeps its value.
\<close>

theorem Load_precedence:
  assumes "Load lib w g (StructPtr flds vs) file = Return None (StructPtr flds' vs') g'"
      and "\<not> isLoaded g" and "\<not> mageCommandGiven (osArgs w)"
      and "i < length flds"
  shows "case candidate lib w file (flds ! i) of
           None \<Rightarrow> vs' i = vs i
         | Some s \<Rightarrow> setFieldByKind lib (flds ! i) s = Inr (vs' i)"
proof -
  from Load_Return_None_cases[OF assms(1)] assms(2,3) obtain st where
    st: "fourPasses lib w flds file \<lparr>vals = vs, isSet = initializeIsSet flds Map.empty\<rparr> = (None, st)"
    and v: "vs' = vals st" by auto
  from fourPasses_value[OF st assms(4)] v show ?thesis by (simp split: option.splits)
qed

text \<open>
  The field \<open>Mode\<close> of the sample is wired to the four sources, each with its own literal:
  default \<open>dev\<close>, file \<open>test\<close> (the last of two lines for the key), environment \<open>env\<close>,
  argument \<open>prod\<close>.
\<close>

theorem Load_precedence_witness:
  "returnsNil (Load sampleLib
                 (sampleWorld [''--primary=p'', ''--name=Alice'', ''--mode'', ''prod''] [''MODE'' \<mapsto> ''env''])
                 freshGlobals (StructPtr sampleFields sampleZero) ''app.config'')
   \<and> \<not> isLoaded freshGlobals
   \<and> \<not> mageCommandGiven
          (osArgs (sampleWorld [''--primary=p'', ''--name=Alice'', ''--mode'', ''prod''] [''MODE'' \<mapsto> ''env'']))
   \<and> candidate sampleLib
         (sampleWorld [''--primary=p'', ''--name=Alice'', ''--mode'', ''prod''] [''MODE'' \<mapsto> ''env''])
         ''app.config'' (sampleFields ! 4) = Some ''prod''
   \<and> fieldAfter (Load sampleLib
                 (sampleWorld [''--primary=p'', ''--name=Alice'', ''--mode'', ''prod''] [''MODE'' \<mapsto> ''env''])
                 freshGlobals (StructPtr sampleFields sampleZero) ''app.config'') 4
       = Some (Scalar (VString ''prod''))"
proof -
  let ?w = "sampleWorld [''--primary=p'', ''--name=Alice'', ''--mode'', ''prod''] [''MODE'' \<mapsto> ''env'']"
  let ?r = "Load sampleLib ?w freshGlobals (StructPtr sampleFields sampleZero) ''app.config''"
  have r: "returnsNil ?r" by code_simp
  then obtain vs' g' where h: "?r = Return None (StructPtr sampleFields vs') g'"
    using returnsNil_Load by blast
  have g: "\<not> isLoaded freshGlobals" by code_simp
  have m: "\<not> mageCommandGiven (osArgs ?w)" by code_simp
  have i: "4 < length sampleFields" by code_simp
  have c: "candidate sampleLib ?w ''app.config'' (sampleFields ! 4) = Some ''prod''" by code_simp
  have t: "setFieldByKind sampleLib (sampleFields ! 4) ''prod'' = Inr (Scalar (VString ''prod''))"
    by code_simp
  from Load_precedence[OF h g m i] c
  have "setFieldByKind sampleLib (sampleFields ! 4) ''prod'' = Inr (vs' 4)" by simp
  with t have "vs' 4 = Scalar (VString ''prod'')" by simp
  with h have "fieldAfter ?r 4 = Some (Scalar (VString ''prod''))" by (simp add: fieldAfter_def)
  with r g m c show ?thesis by simp
qed

subsection \<open>C2: the set-tracking invariant\<close>



subsection \<open>C3: the validation pass\<close>

text \<open>
  Claim C3: the validation pass scans the fields in declared order; a field whose \<open>required\<close>
  tag is \<open>true\<close> and whose set-tracking entry is absent or false gives \<open>RequiredNotSetError\<close>
  naming that field; each dependency named in a non-empty \<open>depends\<close> tag (split on comma) whose
  entry is absent or false gives \<open>DependsNotSetError\<close> naming the dependency; the first
  violation in field order is returned and nothing is aggregated.

  \<open>violations\<close> lists all violations in that order; \<open>checkRequiredAndDepends\<close> returns the first
  of them, and that is what \<open>Load\<close> returns once its four passes have succeeded.
\<close>

theorem validation_first_violation:
  "checkRequiredAndDepends flds m = firstOf (violations flds m)
   \<and> (\<not> isHelpRequested (osArgs w) \<and> \<not> isLoaded g \<and> \<not> mageCommandGiven (osArgs w)
        \<and> fourPasses lib w flds file \<lparr>vals = vs, isSet = initializeIsSet flds Map.empty\<rparr> = (None, st)
      \<longrightarrow> Load lib w g (StructPtr flds vs) file
            = Return (firstOf (violations flds (isSet st))) (StructPtr flds (vals st)) (onceDo g))"
  by (simp add: checkRequiredAndDepends_first Load_def)

text \<open>
  In the sample, without arguments, the fields \<open>Backup\<close> (which depends on \<open>Primary\<close>) and
  \<open>Name\<close> (which is required) both violate their constraint; the error names \<open>Primary\<close>, the
  missing dependency of the first field.  With \<open>--primary=p\<close> the error names \<open>Name\<close>.
\<close>

theorem validation_first_violation_witness:
  "\<not> isHelpRequested (osArgs (sampleWorld [] Map.empty))
   \<and> \<not> isLoaded freshGlobals
   \<and> \<not> mageCommandGiven (osArgs (sampleWorld [] Map.empty))
   \<and> fst (fourPasses sampleLib (sampleWorld [] Map.empty) sampleFields [] sampleStart) = None
   \<and> violations sampleFields
         (isSet (snd (fourPasses sampleLib (sampleWorld [] Map.empty) sampleFields [] sampleStart)))
       = [DependsNotSetError ''Primary'', RequiredNotSetError ''Name'']
   \<and> returnedError (Load sampleLib (sampleWorld [] Map.empty) freshGlobals
                       (StructPtr sampleFields sampleZero) [])
       = Some (DependsNotSetError ''Primary'')
   \<and> checkRequiredAndDepends sampleFields
         (isSet (snd (fourPasses sampleLib (sampleWorld [''--primary=p''] Map.empty) sampleFields []
                        sampleStart)))
       = Some (RequiredNotSetError ''Name'')"
proof -
  let ?w = "sampleWorld [] Map.empty"
  let ?p = "fourPasses sampleLib ?w sampleFields [] sampleStart"
  let ?q = "fourPasses sampleLib (sampleWorld [''--primary=p''] Map.empty) sampleFields [] sampleStart"
  have h: "\<not> isHelpRequested (osArgs ?w)" and g: "\<not> isLoaded freshGlobals"
    and c: "\<not> mageCommandGiven (osArgs ?w)"
    by code_simp+
  have e: "fst ?p = None" by code_simp
  then have ok: "fourPasses sampleLib ?w sampleFields []
                   \<lparr>vals = sampleZero, isSet = initializeIsSet sampleFields Map.empty\<rparr> = (None, snd ?p)"
    unfolding sampleStart_def by (rule pair_fst_snd)
  have v: "violations sampleFields (isSet (snd ?p))
             = [DependsNotSetError ''Primary'', RequiredNotSetError ''Name'']"
    by code_simp
  have v2: "violations sampleFields (isSet (snd ?q)) = [RequiredNotSetError ''Name'']"
    by code_simp
  from validation_first_violation[of sampleFields "isSet (snd ?p)" ?w freshGlobals sampleLib "[]"
      sampleZero "snd ?p"] h g c ok v
  have "returnedError (Load sampleLib ?w freshGlobals (StructPtr sampleFields sampleZero) [])
          = Some (DependsNotSetError ''Primary'')"
    by (simp add: returnedError_def firstOf_def)
  moreover from validation_first_violation[of sampleFields "isSet (snd ?q)" ?w freshGlobals sampleLib
      "[]" sampleZero "snd ?p", THEN conjunct1] v2
  have "checkRequiredAndDepends sampleFields (isSet (snd ?q)) = Some (RequiredNotSetError ''Name'')"
    by (simp add: firstOf_def)
  ultimately show ?thesis using h g c e v by simp
qed

subsection \<open>C4: the line parser on a value that is a single quote character\<close>

text \<open>
  Claim C4 says that the line parser never aborts with a run-time failure, also on a line
  whose trimmed value is a single quote character such as \<open>key:"\<close>.  On that line the test
  \<open>value[0] == '"' && value[len(value)-1] == '"'\<close> holds with \<open>len(value) = 1\<close>, and the slice
  expression \<open>value[1 : len(value)-1]\<close> is \<open>value[1:0]\<close>, which panics.  The same happens for
  a single \<open>'\<close>.  The panic unwinds \<open>Load\<close>: the third conjunct is a call with a file whose
  second line is \<open>key:"\<close>.
\<close>

theorem parseLine_single_quote_panics:
  "parseLine (''key:'' @ [CHR 0x22]) = Inl (Panic ''slice bounds out of range'')
   \<and> parseLine (''key: '' @ [CHR 0x27] @ '' '') = Inl (Panic ''slice bounds out of range'')
   \<and> returnedError (Load sampleLib (sampleWorld [''--primary=p'', ''--name=Alice''] Map.empty)
                       freshGlobals (StructPtr sampleFields sampleZero) ''quoted.config'')
       = Some (Panic ''slice bounds out of range'')"
  by code_simp

subsection \<open>C5: the file parsing algorithm\<close>

text \<open>
  Claim C5 describes the map built from the lines of the file: first-colon split, both sides
  trimmed, one layer of matching quotes stripped, lines without two parts skipped, last
  occurrence of a key wins.  By that description the two lines below give the map with
  \<open>name\<close> bound to \<open>Alice\<close> and \<open>key\<close> bound to the one-character text \<open>'\<close>, which has no
  surrounding pair of quotes.  The code panics on the second line instead and builds no map.
\<close>

theorem readLines_single_quote_panics:
  "readLines [''name: Alice'', ''key: '' @ [CHR 0x27]] Map.empty
     = Inl (Panic ''slice bounds out of range'')"
proof -
  have "parseLine ''name: Alice'' = Inr (Some (''name'', ''Alice''))" by code_simp
  moreover have "parseLine (''key: '' @ [CHR 0x27]) = Inl (Panic ''slice bounds out of range'')"
    by code_simp
  ultimately show ?thesis by simp
qed

subsection \<open>C6: an argument with an empty value\<close>

text \<open>
  Claim C6: when the only matching argument token of a field carries an empty value (a token
  \<open>-name=\<close> or \<open>--name=\<close>, or a standalone \<open>-name\<close> whose next token is the empty string), the
  argument pass leaves the field untouched and does not mark it set, also for a boolean field.

  Here \<open>a\<close> is that token, \<open>pre\<close> the tokens before it, none of which makes the scanner return,
  and \<open>rest\<close> the tokens after it; \<open>n\<close> is the effective argument name of the field.  The
  scanner compares the text before the first \<open>=\<close>, so the name has no \<open>=\<close>.
\<close>

theorem empty_argument_value_ignored:
  assumes args: "osArgs w = prog # pre @ a # rest"
      and n: "n = getTagOrDefault lib (flds ! i) tagArg" "n \<noteq> []" "CHR ''='' \<notin> set n"
      and b: "b = (fieldType (flds ! i) = TBool)"
      and pre: "unmatched n b pre (a # rest)"
      and form: "TrimLeft a argPrefix = n @ ''=''
                 \<or> (TrimLeft a argPrefix = n \<and> (\<exists>rest'. rest = [] # rest'))"
      and i: "i < length flds" and d: "distinct (map fieldName flds)"
      and pass: "loadFromArgs lib w flds st = (e, st')"
  shows "getArgValue w n b = []
       \<and> vals st' i = vals st i
       \<and> isSet st' (fieldName (flds ! i)) = isSet st (fieldName (flds ! i))"
proof -
  let ?f = "flds ! i"
  have v: "getArgValue w n b = []"
    by (rule getArgValue_empty[OF args pre n(2,3) form])
  then have c: "argCand lib w ?f = None"
    by (simp add: argCand_def n(1) b)
  from pass have p: "setFieldsFrom 0 flds (passStep lib (argCand lib w)) st = (e, st')"
    by (simp add: loadFromArgs_passStep setFields_def)
  from i have mem: "?f \<in> set flds" by simp
  have "vals st' i = vals st i"
    using pass_vals_none[OF p i c] by simp
  moreover have "\<forall>f\<in>set flds. fieldName f = fieldName ?f \<longrightarrow> argCand lib w f = None"
    using distinct_name_unique[OF d mem] c by metis
  from pass_isSet_frame[OF p this] have "isSet st' (fieldName ?f) = isSet st (fieldName ?f)" .
  ultimately show ?thesis using v by simp
qed

text \<open>
  The sample with \<open>--mode=\<close> after two other arguments: \<open>Mode\<close> (index 4) keeps the value it had
  before the argument pass, here the zero value, and stays not set.
\<close>

theorem empty_argument_value_ignored_witness:
  "osArgs (sampleWorld [''--primary=p'', ''--name=Alice'', ''--mode='', ''x''] Map.empty)
     = ''cmd'' # [''--primary=p'', ''--name=Alice''] @ ''--mode='' # [''x'']
   \<and> getTagOrDefault sampleLib (sampleFields ! 4) tagArg = ''mode''
   \<and> unmatched ''mode'' False [''--primary=p'', ''--name=Alice''] (''--mode='' # [''x''])
   \<and> TrimLeft ''--mode='' argPrefix = ''mode'' @ ''=''
   \<and> distinct (map fieldName sampleFields)
   \<and> getArgValue (sampleWorld [''--primary=p'', ''--name=Alice'', ''--mode='', ''x''] Map.empty)
         ''mode'' False = []
   \<and> vals (snd (loadFromArgs sampleLib
                   (sampleWorld [''--primary=p'', ''--name=Alice'', ''--mode='', ''x''] Map.empty)
                   sampleFields sampleStart)) 4 = sampleZero 4
   \<and> isSet (snd (loadFromArgs sampleLib
                   (sampleWorld [''--primary=p'', ''--name=Alice'', ''--mode='', ''x''] Map.empty)
                   sampleFields sampleStart)) ''Mode'' = Some False"
proof -
  let ?w = "sampleWorld [''--primary=p'', ''--name=Alice'', ''--mode='', ''x''] Map.empty"
  let ?p = "loadFromArgs sampleLib ?w sampleFields sampleStart"
  have args: "osArgs ?w = ''cmd'' # [''--primary=p'', ''--name=Alice''] @ ''--mode='' # [''x'']"
    by code_simp
  have n: "''mode'' = getTagOrDefault sampleLib (sampleFields ! 4) tagArg" "''mode'' \<noteq> []"
    "CHR ''='' \<notin> set ''mode''"
    by code_simp+
  have b: "False = (fieldType (sampleFields ! 4) = TBool)" by code_simp
  have pre: "unmatched ''mode'' False [''--primary=p'', ''--name=Alice''] (''--mode='' # [''x''])"
    by code_simp
  have t: "TrimLeft ''--mode='' argPrefix = ''mode'' @ ''=''" by code_simp
  have i: "4 < length sampleFields" and d: "distinct (map fieldName sampleFields)"
    and nm: "fieldName (sampleFields ! 4) = ''Mode''"
    by code_simp+
  have s: "vals sampleStart 4 = sampleZero 4" "isSet sampleStart ''Mode'' = Some False"
    by code_simp+
  have p: "?p = (fst ?p, snd ?p)" by simp
  from empty_argument_value_ignored[OF args n b pre disjI1[OF t] i d p] nm s
  have "getArgValue ?w ''mode'' False = [] \<and> vals (snd ?p) 4 = sampleZero 4
        \<and> isSet (snd ?p) ''Mode'' = Some False"
    by simp
  with args n(1) pre t d show ?thesis by simp
qed

subsection \<open>C7: errors of opening and reading the file\<close>

text \<open>
  Claim C7: when a non-empty file path is given and the file does not exist, \<open>Load\<close> treats
  this as no file configuration supplied and returns no error: the file pass is a no-op and
  the later passes proceed.  Any other failure to open or read the file is returned to the
  caller and aborts the resolution call.

  For a missing file the pass returns \<open>nil\<close> with the state unchanged, and the whole call is the
  call with the empty path.  A failure to open the file, and a failure of the scanner once
  its lines have been taken in, are returned by the pass with the state unchanged; an error
  of the pass is what \<open>Load\<close> returns, right after the defaults pass and without running the
  later passes and the validation.
\<close>

theorem file_open_taxonomy:
  "(file \<noteq> [] \<and> osOpen w file = ErrNotExist
      \<longrightarrow> loadFromFile lib w flds file st = (None, st)
          \<and> Load lib w g cfg file = Load lib w g cfg [])
   \<and> (file \<noteq> [] \<and> osOpen w file = OpenError msg
      \<longrightarrow> loadFromFile lib w flds file st = (Some (FileAccessError msg), st))
   \<and> (file \<noteq> [] \<and> osOpen w file = Opened lines (Some msg) \<and> readLines lines Map.empty = Inr m
      \<longrightarrow> loadFromFile lib w flds file st = (Some (FileAccessError msg), st))
   \<and> (\<not> isHelpRequested (osArgs w) \<and> \<not> isLoaded g \<and> \<not> mageCommandGiven (osArgs w)
        \<and> setDefault lib flds \<lparr>vals = vs, isSet = initializeIsSet flds Map.empty\<rparr> = (None, sd)
        \<and> loadFromFile lib w flds file sd = (Some err, sf)
      \<longrightarrow> Load lib w g (StructPtr flds vs) file = Return (Some err) (StructPtr flds (vals sf)) g)"
proof (intro conjI impI)
  assume "file \<noteq> [] \<and> osOpen w file = ErrNotExist"
  then show "loadFromFile lib w flds file st = (None, st)"
    and "Load lib w g cfg file = Load lib w g cfg []"
    by (simp_all add: loadFromFile_missing Load_missing_file)
next
  assume "file \<noteq> [] \<and> osOpen w file = OpenError msg"
  then show "loadFromFile lib w flds file st = (Some (FileAccessError msg), st)"
    by (simp add: loadFromFile_open_error)
next
  assume "file \<noteq> [] \<and> osOpen w file = Opened lines (Some msg) \<and> readLines lines Map.empty = Inr m"
  then show "loadFromFile lib w flds file st = (Some (FileAccessError msg), st)"
    by (simp add: loadFromFile_read_error)
next
  assume "\<not> isHelpRequested (osArgs w) \<and> \<not> isLoaded g \<and> \<not> mageCommandGiven (osArgs w)
        \<and> setDefault lib flds \<lparr>vals = vs, isSet = initializeIsSet flds Map.empty\<rparr> = (None, sd)
        \<and> loadFromFile lib w flds file sd = (Some err, sf)"
  then show "Load lib w g (StructPtr flds vs) file = Return (Some err) (StructPtr flds (vals sf)) g"
    by (simp add: Load_file_error)
qed

text \<open>
  The sample file system has no \<open>missing.config\<close>, refuses to open \<open>locked.config\<close> and fails
  while reading \<open>broken.config\<close>.
\<close>

theorem file_open_taxonomy_witness:
  "osOpen (sampleWorld [''--primary=p'', ''--name=Alice''] Map.empty) ''missing.config'' = ErrNotExist
   \<and> Load sampleLib (sampleWorld [''--primary=p'', ''--name=Alice''] Map.empty) freshGlobals
         (StructPtr sampleFields sampleZero) ''missing.config''
       = Load sampleLib (sampleWorld [''--primary=p'', ''--name=Alice''] Map.empty) freshGlobals
         (StructPtr sampleFields sampleZero) []
   \<and> returnsNil (Load sampleLib (sampleWorld [''--primary=p'', ''--name=Alice''] Map.empty) freshGlobals
         (StructPtr sampleFields sampleZero) [])
   \<and> osOpen (sampleWorld [''--primary=p'', ''--name=Alice''] Map.empty) ''locked.config''
       = OpenError ''permission denied''
   \<and> fst (setDefault sampleLib sampleFields sampleStart) = None
   \<and> returnedError (Load sampleLib (sampleWorld [''--primary=p'', ''--name=Alice''] Map.empty)
         freshGlobals (StructPtr sampleFields sampleZero) ''locked.config'')
       = Some (FileAccessError ''permission denied'')
   \<and> osOpen (sampleWorld [''--primary=p'', ''--name=Alice''] Map.empty) ''broken.config''
       = Opened [''mode: test''] (Some ''input/output error'')
   \<and> fst (loadFromFile sampleLib (sampleWorld [''--primary=p'', ''--name=Alice''] Map.empty)
         sampleFields ''broken.config'' sampleStart)
       = Some (FileAccessError ''input/output error'')"
proof -
  let ?w = "sampleWorld [''--primary=p'', ''--name=Alice''] Map.empty"
  let ?d = "setDefault sampleLib sampleFields sampleStart"
  have o1: "''missing.config'' \<noteq> [] \<and> osOpen ?w ''missing.config'' = ErrNotExist" by code_simp
  have o2: "''locked.config'' \<noteq> [] \<and> osOpen ?w ''locked.config'' = OpenError ''permission denied''"
    by code_simp
  have o3: "osOpen ?w ''broken.config'' = Opened [''mode: test''] (Some ''input/output error'')"
    by code_simp
  have nil: "returnsNil (Load sampleLib ?w freshGlobals (StructPtr sampleFields sampleZero) [])"
    by code_simp
  have guards: "\<not> isHelpRequested (osArgs ?w)" "\<not> isLoaded freshGlobals"
    "\<not> mageCommandGiven (osArgs ?w)"
    by code_simp+
  have e: "fst ?d = None" by code_simp
  then have d: "setDefault sampleLib sampleFields
                  \<lparr>vals = sampleZero, isSet = initializeIsSet sampleFields Map.empty\<rparr> = (None, snd ?d)"
    unfolding sampleStart_def by (rule pair_fst_snd)
  obtain m where rl: "readLines [''mode: test''] Map.empty = Inr m"
  proof -
    have "parseLine ''mode: test'' = Inr (Some (''mode'', ''test''))" by code_simp
    then show ?thesis using that by simp
  qed
  from file_open_taxonomy[where w = ?w and lib = sampleLib and g = freshGlobals
      and ?file = "''missing.config''" and cfg = "StructPtr sampleFields sampleZero",
      THEN conjunct1] o1
  have a: "Load sampleLib ?w freshGlobals (StructPtr sampleFields sampleZero) ''missing.config''
           = Load sampleLib ?w freshGlobals (StructPtr sampleFields sampleZero) []"
    by simp
  from file_open_taxonomy[where w = ?w and lib = sampleLib and flds = sampleFields
      and ?file = "''locked.config''" and msg = "''permission denied''" and st = "snd ?d",
      THEN conjunct2, THEN conjunct1] o2
  have l: "loadFromFile sampleLib ?w sampleFields ''locked.config'' (snd ?d)
           = (Some (FileAccessError ''permission denied''), snd ?d)"
    by simp
  from file_open_taxonomy[where w = ?w and lib = sampleLib and flds = sampleFields
      and g = freshGlobals and vs = sampleZero
      and ?file = "''locked.config''" and sd = "snd ?d" and sf = "snd ?d"
      and err = "FileAccessError ''permission denied''",
      THEN conjunct2, THEN conjunct2, THEN conjunct2] guards d l
  have b: "returnedError (Load sampleLib ?w freshGlobals (StructPtr sampleFields sampleZero)
             ''locked.config'') = Some (FileAccessError ''permission denied'')"
    by (simp add: returnedError_def)
  from file_open_taxonomy[where w = ?w and lib = sampleLib and flds = sampleFields
      and ?file = "''broken.config''" and msg = "''input/output error''" and st = sampleStart
      and lines = "[''mode: test'']" and m = m,
      THEN conjunct2, THEN conjunct2, THEN conjunct1] o3 rl
  have c: "fst (loadFromFile sampleLib ?w sampleFields ''broken.config'' sampleStart)
           = Some (FileAccessError ''input/output error'')"
    by simp
  from o1 a nil o2 e b o3 c show ?thesis by simp
qed

subsection \<open>C8: a boolean flag without a value\<close>

text \<open>
  Claim C8: for a boolean field whose effective argument name matches a standalone token
  \<open>-name\<close> or \<open>--name\<close> that is the last argument or is followed by a token that begins with a
  dash, the argument pass resolves the value from the text \<open>true\<close>: the field ends up true and
  marked set.

  Here \<open>a\<close> is the standalone token, reached by the scanner because no token of \<open>pre\<close> before
  it makes the scanner return (the first match wins); the conclusion about the field is for
  an argument pass that returns no error.
\<close>

theorem bare_boolean_flag_is_true:
  assumes bool: "fieldType (flds ! i) = TBool"
      and args: "osArgs w = prog # pre @ a # rest"
      and n: "n = getTagOrDefault lib (flds ! i) tagArg" "CHR ''='' \<notin> set n"
      and pre: "unmatched n True pre (a # rest)"
      and tok: "TrimLeft a argPrefix = n"
      and nxt: "case rest of [] \<Rightarrow> True | next # _ \<Rightarrow> HasPrefix next argPrefix"
      and i: "i < length flds"
      and pass: "loadFromArgs lib w flds st = (None, st')"
  shows "getArgValue w n True = ''true''
       \<and> setFieldByKind lib (flds ! i) ''true'' = Inr (Scalar (VBool True))
       \<and> vals st' i = Scalar (VBool True)
       \<and> isSet st' (fieldName (flds ! i)) = Some True"
proof -
  let ?f = "flds ! i"
  have v: "getArgValue w n True = ''true''"
    by (rule getArgValue_bare_flag[OF args pre n(2) tok nxt])
  then have c: "argCand lib w ?f = Some ''true''"
    by (simp add: argCand_def n(1) bool)
  from pass have p: "setFieldsFrom 0 flds (passStep lib (argCand lib w)) st = (None, st')"
    by (simp add: loadFromArgs_passStep setFields_def)
  from i have mem: "?f \<in> set flds" by simp
  from pass_converts[OF p mem c] obtain v' where v': "setFieldByKind lib ?f ''true'' = Inr v'"
    by blast
  from setFieldByKind_true[OF bool v'] v'
  have t: "setFieldByKind lib ?f ''true'' = Inr (Scalar (VBool True))"
    by simp
  from pass_vals_success[OF p i] c assigned_Some[OF t] have "vals st' i = Scalar (VBool True)"
    by simp
  moreover have "isSet st' (fieldName ?f) = Some True"
    using pass_isSet_success[OF p, of "fieldName ?f"] mem c by auto
  ultimately show ?thesis using v t by (simp only: simp_thms)
qed

text \<open>
  The sample with \<open>-verbose\<close> followed by another flag: \<open>Verbose\<close> (index 5, argument name
  \<open>verbose\<close> from the field name) ends up true and set.
\<close>

theorem bare_boolean_flag_is_true_witness:
  "fieldType (sampleFields ! 5) = TBool
   \<and> getTagOrDefault sampleLib (sampleFields ! 5) tagArg = ''verbose''
   \<and> unmatched ''verbose'' True [''--primary=p''] (''-verbose'' # [''--name=Alice''])
   \<and> TrimLeft ''-verbose'' argPrefix = ''verbose''
   \<and> HasPrefix ''--name=Alice'' argPrefix
   \<and> fst (loadFromArgs sampleLib
             (sampleWorld [''--primary=p'', ''-verbose'', ''--name=Alice''] Map.empty)
             sampleFields sampleStart) = None
   \<and> getArgValue (sampleWorld [''--primary=p'', ''-verbose'', ''--name=Alice''] Map.empty)
         ''verbose'' True = ''true''
   \<and> vals (snd (loadFromArgs sampleLib
                   (sampleWorld [''--primary=p'', ''-verbose'', ''--name=Alice''] Map.empty)
                   sampleFields sampleStart)) 5 = Scalar (VBool True)
   \<and> isSet (snd (loadFromArgs sampleLib
                   (sampleWorld [''--primary=p'', ''-verbose'', ''--name=Alice''] Map.empty)
                   sampleFields sampleStart)) ''Verbose'' = Some True"
proof -
  let ?w = "sampleWorld [''--primary=p'', ''-verbose'', ''--name=Alice''] Map.empty"
  let ?p = "loadFromArgs sampleLib ?w sampleFields sampleStart"
  have bool: "fieldType (sampleFields ! 5) = TBool" by code_simp
  have args: "osArgs ?w = ''cmd'' # [''--primary=p''] @ ''-verbose'' # [''--name=Alice'']"
    by code_simp
  have n: "''verbose'' = getTagOrDefault sampleLib (sampleFields ! 5) tagArg"
    "CHR ''='' \<notin> set ''verbose''"
    by code_simp+
  have pre: "unmatched ''verbose'' True [''--primary=p''] (''-verbose'' # [''--name=Alice''])"
    by code_simp
  have tok: "TrimLeft ''-verbose'' argPrefix = ''verbose''" by code_simp
  have hp: "HasPrefix ''--name=Alice'' argPrefix" by code_simp
  then have nxt: "case [''--name=Alice''] of [] \<Rightarrow> True | next # _ \<Rightarrow> HasPrefix next argPrefix"
    by simp
  have i: "5 < length sampleFields" and nm: "fieldName (sampleFields ! 5) = ''Verbose''"
    by code_simp+
  have e: "fst ?p = None" by code_simp
  then have pass: "?p = (None, snd ?p)" by (rule pair_fst_snd)
  from bare_boolean_flag_is_true[OF bool args n pre tok nxt i pass] nm
  have "getArgValue ?w ''verbose'' True = ''true'' \<and> vals (snd ?p) 5 = Scalar (VBool True)
        \<and> isSet (snd ?p) ''Verbose'' = Some True"
    by simp
  with bool n(1) pre tok hp e show ?thesis by simp
qed

subsection \<open>C9: conversion of a mapping field\<close>

text \<open>
  Claim C9: the raw text is split on the element separator into pair-tokens, each pair-token
  on the key-value separator into two parts; a pair-token that does not split into two parts
  fails the whole field with \<open>MapFormatError\<close> naming that token; for well-formed pair-tokens
  the key is the literal trimmed text and the value text is trimmed and converted to the
  element type by the scalar rule.

  The tokens are converted from left to right, so the malformed token is the one reported
  when the tokens before it are well-formed and convert.  When every token is well-formed
  and converts, an exported field of a type \<open>map[string]T\<close> becomes the map that binds each
  trimmed key to the converted value of the last token with that key.
\<close>

theorem map_conversion:
  "(fieldType fld = TMap kt t \<and> Split strVal sliceSeparator = pre @ pair # post
      \<and> list_all (pairOk lib t) pre \<and> kvSeparator \<notin> set pair
      \<longrightarrow> setFieldByKind lib fld strVal = Inl (MapFormatError pair))
   \<and> (fieldType fld = TMap TString t \<and> fieldExported fld
      \<and> list_all (pairOk lib t) (Split strVal sliceSeparator)
      \<longrightarrow> (\<exists>al. setFieldByKind lib fld strVal = Inr (MapV al)
               \<and> map_of al = map_of (rev (map (entryOf lib t) (Split strVal sliceSeparator)))))
   \<and> (pairOk lib t pair
      \<longrightarrow> fst (entryOf lib t pair) = TrimSpace (takeWhile (\<lambda>x. x \<noteq> kvSeparator) pair)
          \<and> parseStringToType lib (TrimSpace (drop 1 (dropWhile (\<lambda>x. x \<noteq> kvSeparator) pair))) t
              = Inr (snd (entryOf lib t pair)))"
proof (intro conjI impI)
  assume "fieldType fld = TMap kt t \<and> Split strVal sliceSeparator = pre @ pair # post
      \<and> list_all (pairOk lib t) pre \<and> kvSeparator \<notin> set pair"
  then show "setFieldByKind lib fld strVal = Inl (MapFormatError pair)"
    by (simp add: setFieldByKind_def setMapPairs_malformed)
next
  assume a: "fieldType fld = TMap TString t \<and> fieldExported fld
      \<and> list_all (pairOk lib t) (Split strVal sliceSeparator)"
  then have "list_all (pairOk lib t) (Split strVal sliceSeparator)" by simp
  from setMapPairs_ok[OF this, of "[]"] a
  show "\<exists>al. setFieldByKind lib fld strVal = Inr (MapV al)
               \<and> map_of al = map_of (rev (map (entryOf lib t) (Split strVal sliceSeparator)))"
    by (auto simp: setFieldByKind_def Set_def)
next
  assume "pairOk lib t pair"
  then show "fst (entryOf lib t pair) = TrimSpace (takeWhile (\<lambda>x. x \<noteq> kvSeparator) pair)"
    and "parseStringToType lib (TrimSpace (drop 1 (dropWhile (\<lambda>x. x \<noteq> kvSeparator) pair))) t
              = Inr (snd (entryOf lib t pair))"
    by (auto simp: pairOk_def entryOf_def keyOf_def valueTextOf_def split: sum.splits)
qed

text \<open>
  The text \<open>key1,key2:2\<close> for a field of type \<open>map[string]int\<close> fails with the token \<open>key1\<close>;
  the text \<open>key1:1, key2 : 2\<close> gives the map of \<open>key1\<close> to 1 and \<open>key2\<close> to 2.
\<close>

theorem map_conversion_witness:
  "fieldType sampleMapField = TMap TString TInt
   \<and> fieldExported sampleMapField
   \<and> Split ''key1,key2:2'' sliceSeparator = [] @ ''key1'' # [''key2:2'']
   \<and> kvSeparator \<notin> set ''key1''
   \<and> setFieldByKind sampleLib sampleMapField ''key1,key2:2'' = Inl (MapFormatError ''key1'')
   \<and> list_all (pairOk sampleLib TInt) (Split ''key1:1, key2 : 2'' sliceSeparator)
   \<and> (\<exists>al. setFieldByKind sampleLib sampleMapField ''key1:1, key2 : 2'' = Inr (MapV al)
          \<and> map_of al ''key1'' = Some (VInt 1) \<and> map_of al ''key2'' = Some (VInt 2))"
proof -
  have ty: "fieldType sampleMapField = TMap TString TInt" and ex: "fieldExported sampleMapField"
    by code_simp+
  have s: "Split ''key1,key2:2'' sliceSeparator = [] @ ''key1'' # [''key2:2'']" by code_simp
  have k: "kvSeparator \<notin> set ''key1''" by code_simp
  have p: "list_all (pairOk sampleLib TInt) []" by code_simp
  have ok: "list_all (pairOk sampleLib TInt) (Split ''key1:1, key2 : 2'' sliceSeparator)"
    by code_simp
  have m1: "map_of (rev (map (entryOf sampleLib TInt) (Split ''key1:1, key2 : 2'' sliceSeparator)))
              ''key1'' = Some (VInt 1)"
    by code_simp
  have m2: "map_of (rev (map (entryOf sampleLib TInt) (Split ''key1:1, key2 : 2'' sliceSeparator)))
              ''key2'' = Some (VInt 2)"
    by code_simp
  have a: "setFieldByKind sampleLib sampleMapField ''key1,key2:2'' = Inl (MapFormatError ''key1'')"
    by (rule map_conversion[of sampleMapField TString TInt "''key1,key2:2''" "[]" "''key1''"
          "[''key2:2'']" sampleLib,
          THEN conjunct1, THEN mp, OF conjI[OF ty conjI[OF s conjI[OF p k]]]])
  obtain al where al: "setFieldByKind sampleLib sampleMapField ''key1:1, key2 : 2'' = Inr (MapV al)"
    "map_of al = map_of (rev (map (entryOf sampleLib TInt) (Split ''key1:1, key2 : 2'' sliceSeparator)))"
    using map_conversion[of sampleMapField TString TInt "''key1:1, key2 : 2''" "[]" "''key1''" "[]"
          sampleLib,
          THEN conjunct2, THEN conjunct1, THEN mp, OF conjI[OF ty conjI[OF ex ok]]]
    by blast
  from al(2) m1 m2 have "map_of al ''key1'' = Some (VInt 1)" "map_of al ''key2'' = Some (VInt 2)"
    by (simp_all only:)
  with al(1) have e: "\<exists>al. setFieldByKind sampleLib sampleMapField ''key1:1, key2 : 2'' = Inr (MapV al)
          \<and> map_of al ''key1'' = Some (VInt 1) \<and> map_of al ''key2'' = Some (VInt 2)"
    by blast
  from ty ex s k a ok e show ?thesis by blast
qed

subsection \<open>C10: a field without any source\<close>

text \<open>
  Claim C10: a field for which no source supplies a candidate string (empty default literal,
  file key absent from the parsed map or no file given, environment variable not set, no
  matching argument token) keeps its value through a successful \<open>Load\<close>, and its set-tracking
  entry remains false.

  The field keeps its value whatever \<open>Load\<close> returns, and whatever the four passes return the
  entry of the field is still the \<open>false\<close> that \<open>initializeIsSet\<close> stored.
\<close>

theorem untouched_without_source:
  assumes i: "i < length flds"
      and nd: "fieldTag (flds ! i) tagDefault = []"
      and nf: "fieldTag (flds ! i) tagFile = [] \<or> fileMap w file (fieldTag (flds ! i) tagFile) = None"
      and ne: "fieldTag (flds ! i) tagEnv = [] \<or> lookupEnv w (fieldTag (flds ! i) tagEnv) = None"
      and na: "getArgValue w (getTagOrDefault lib (flds ! i) tagArg) (fieldType (flds ! i) = TBool) = []"
      and d: "distinct (map fieldName flds)"
      and r: "Load lib w g (StructPtr flds vs) file = Return e (StructPtr flds' vs') g'"
      and p: "fourPasses lib w flds file \<lparr>vals = vs, isSet = initializeIsSet flds Map.empty\<rparr> = (e', st)"
  shows "vs' i = vs i \<and> vals st i = vs i \<and> isSet st (fieldName (flds ! i)) = Some False"
proof -
  let ?f = "flds ! i"
  from i have mem: "?f \<in> set flds" by simp
  from nd nf ne na have c: "candidate lib w file ?f = None"
    by (auto simp: candidate_None_iff defaultCand_def fileCand_def envCand_def argCand_def)
  have frame: "\<And>e'' st''. fourPasses lib w flds file
        \<lparr>vals = vs, isSet = initializeIsSet flds Map.empty\<rparr> = (e'', st'') \<Longrightarrow> vals st'' i = vs i"
    using fourPasses_frame_vals[OF _ i c] by fastforce
  from Load_Return_cases[OF r] have "vs' i = vs i"
    using frame by auto
  moreover have "vals st i = vs i" using frame[OF p] .
  moreover have "\<forall>f\<in>set flds. fieldName f = fieldName ?f \<longrightarrow> candidate lib w file f = None"
    using distinct_name_unique[OF d mem] c by metis
  from fourPasses_frame_isSet[OF p this] mem
  have "isSet st (fieldName ?f) = Some False" by (simp add: initializeIsSet_apply)
  ultimately show ?thesis by simp
qed

text \<open>The field \<open>Verbose\<close> of the sample (index 5) when no argument names it.\<close>

theorem untouched_without_source_witness:
  "fieldTag (sampleFields ! 5) tagDefault = []
   \<and> fieldTag (sampleFields ! 5) tagFile = []
   \<and> fieldTag (sampleFields ! 5) tagEnv = []
   \<and> getArgValue (sampleWorld [''--primary=p'', ''--name=Alice''] Map.empty)
        (getTagOrDefault sampleLib (sampleFields ! 5) tagArg) (fieldType (sampleFields ! 5) = TBool) = []
   \<and> returnsNil (Load sampleLib (sampleWorld [''--primary=p'', ''--name=Alice''] Map.empty) freshGlobals
                   (StructPtr sampleFields sampleZero) ''app.config'')
   \<and> fieldAfter (Load sampleLib (sampleWorld [''--primary=p'', ''--name=Alice''] Map.empty) freshGlobals
                   (StructPtr sampleFields sampleZero) ''app.config'') 5 = Some (sampleZero 5)
   \<and> isSet (snd (fourPasses sampleLib (sampleWorld [''--primary=p'', ''--name=Alice''] Map.empty)
                    sampleFields ''app.config'' sampleStart)) ''Verbose'' = Some False"
proof -
  let ?w = "sampleWorld [''--primary=p'', ''--name=Alice''] Map.empty"
  let ?r = "Load sampleLib ?w freshGlobals (StructPtr sampleFields sampleZero) ''app.config''"
  let ?p = "fourPasses sampleLib ?w sampleFields ''app.config''
              \<lparr>vals = sampleZero, isSet = initializeIsSet sampleFields Map.empty\<rparr>"
  have i: "5 < length sampleFields" by code_simp
  have nd: "fieldTag (sampleFields ! 5) tagDefault = []" and nf: "fieldTag (sampleFields ! 5) tagFile = []"
    and ne: "fieldTag (sampleFields ! 5) tagEnv = []"
    and na: "getArgValue ?w (getTagOrDefault sampleLib (sampleFields ! 5) tagArg)
               (fieldType (sampleFields ! 5) = TBool) = []"
    and n: "fieldName (sampleFields ! 5) = ''Verbose''"
    by code_simp+
  have d: "distinct (map fieldName sampleFields)" by code_simp
  have rn: "returnsNil ?r" by code_simp
  then obtain vs' g' where r: "?r = Return None (StructPtr sampleFields vs') g'"
    using returnsNil_Load by blast
  have p: "?p = (fst ?p, snd ?p)" by simp
  from untouched_without_source[OF i nd _ _ na d r p] nf ne n
  have "vs' 5 = sampleZero 5 \<and> isSet (snd ?p) ''Verbose'' = Some False" by simp
  with r have "fieldAfter ?r 5 = Some (sampleZero 5)" "isSet (snd ?p) ''Verbose'' = Some False"
    by (simp_all add: fieldAfter_def)
  with nd nf ne na rn show ?thesis by (simp add: sampleStart_def)
qed

end
